theory Spec2Isabelle
  imports Complex_Main
begin

section \<open>Text: Python strings as lists of code points\<close>

text \<open>
  A Python \<open>str\<close> is a sequence of Unicode code points and \<open>len\<close> counts code points, so a
  text is a list of naturals.  Literals of the source are written with \<open>str\<close>, which reads
  an ASCII literal as its code points; the letters outside ASCII that the source uses are
  spelled out as numbers.
\<close>

type_synonym codepoint = nat
type_synonym unistr = "codepoint list"

definition str :: "string \<Rightarrow> unistr" where
  "str s = map of_char s"

definition LF :: codepoint where "LF = 10"
definition SP :: codepoint where "SP = 32"
definition a_uml :: codepoint where "a_uml = 228"
definition o_uml :: codepoint where "o_uml = 246"
definition u_uml :: codepoint where "u_uml = 252"
definition A_uml :: codepoint where "A_uml = 196"
definition O_uml :: codepoint where "O_uml = 214"
definition U_uml :: codepoint where "U_uml = 220"
definition eszett :: codepoint where "eszett = 223"
definition euro :: codepoint where "euro = 8364"

text \<open>
  \<open>str.isspace\<close> on one code point, which is also what \<open>\s\<close> matches, what \<open>strip()\<close> removes
  and where \<open>split()\<close> cuts: the complete list of CPython's whitespace code points.
\<close>

definition isspace :: "codepoint \<Rightarrow> bool" where
  "isspace c \<longleftrightarrow>
     (9 \<le> c \<and> c \<le> 13) \<or> (28 \<le> c \<and> c \<le> 32) \<or> c = 133 \<or> c = 160 \<or> c = 5760 \<or>
     (8192 \<le> c \<and> c \<le> 8202) \<or> c = 8232 \<or> c = 8233 \<or> c = 8239 \<or> c = 8287 \<or> c = 12288"

text \<open>
  The remaining character tables and case mappings belong to the Python runtime, not to
  the repository, and cover all of Unicode.  They are a parameter of the model: every
  function that classifies or re-cases characters takes them as its first argument.
\<close>

record unicode =
  isalpha :: "codepoint \<Rightarrow> bool"      \<comment> \<open>\<open>c.isalpha()\<close>\<close>
  isalnum :: "codepoint \<Rightarrow> bool"      \<comment> \<open>\<open>c.isalnum()\<close>; with \<open>_\<close> it is the class \<open>\w\<close>\<close>
  isdecimal :: "codepoint \<Rightarrow> bool"    \<comment> \<open>\<open>c.isdecimal()\<close>, the class \<open>\d\<close>\<close>
  lower :: "unistr \<Rightarrow> unistr"              \<comment> \<open>\<open>s.lower()\<close>\<close>
  capitalize :: "unistr \<Rightarrow> unistr"         \<comment> \<open>\<open>s.capitalize()\<close>\<close>

text \<open>
  The tables of the runtime on the code points up to U+00FF, which hold every character
  of the source's literals except the euro sign (a symbol with no case).  Above U+00FF
  this instance knows no letters or digits and leaves the case alone; it is used to run
  the functions on concrete Latin-1 texts.
\<close>

definition latin1_isalpha :: "codepoint \<Rightarrow> bool" where
  "latin1_isalpha c \<longleftrightarrow>
     (65 \<le> c \<and> c \<le> 90) \<or> (97 \<le> c \<and> c \<le> 122) \<or> c = 170 \<or> c = 181 \<or> c = 186 \<or>
     (192 \<le> c \<and> c \<le> 214) \<or> (216 \<le> c \<and> c \<le> 246) \<or> (248 \<le> c \<and> c \<le> 255)"

definition latin1_isdecimal :: "codepoint \<Rightarrow> bool" where
  "latin1_isdecimal c \<longleftrightarrow> 48 \<le> c \<and> c \<le> 57"

definition latin1_isalnum :: "codepoint \<Rightarrow> bool" where
  "latin1_isalnum c \<longleftrightarrow>
     latin1_isalpha c \<or> latin1_isdecimal c \<or> c = 178 \<or> c = 179 \<or> c = 185 \<or>
     (188 \<le> c \<and> c \<le> 190)"

definition latin1_lower_char :: "codepoint \<Rightarrow> codepoint" where
  "latin1_lower_char c =
     (if (65 \<le> c \<and> c \<le> 90) \<or> (192 \<le> c \<and> c \<le> 222 \<and> c \<noteq> 215) then c + 32 else c)"

definition latin1_title_char :: "codepoint \<Rightarrow> unistr" where
  "latin1_title_char c =
     (if (97 \<le> c \<and> c \<le> 122) \<or> (224 \<le> c \<and> c \<le> 254 \<and> c \<noteq> 247) then [c - 32]
      else if c = 223 then [83, 115]
      else if c = 181 then [924]
      else if c = 255 then [376]
      else [c])"

definition latin1_capitalize :: "unistr \<Rightarrow> unistr" where
  "latin1_capitalize s =
     (case s of [] \<Rightarrow> [] | c # cs \<Rightarrow> latin1_title_char c @ map latin1_lower_char cs)"

definition latin1 :: unicode where
  "latin1 = \<lparr> isalpha = latin1_isalpha, isalnum = latin1_isalnum,
              isdecimal = latin1_isdecimal, lower = map latin1_lower_char,
              capitalize = latin1_capitalize \<rparr>"

subsection \<open>String methods\<close>

definition strip :: "unistr \<Rightarrow> unistr" where
  \<comment> \<open>\<open>s.strip()\<close>\<close>
  "strip s = rev (dropWhile isspace (rev (dropWhile isspace s)))"

fun split_on :: "codepoint \<Rightarrow> unistr \<Rightarrow> unistr list" where
  \<comment> \<open>\<open>s.split(d)\<close> for a one-character separator: empty pieces are kept\<close>
  "split_on d [] = [[]]"
| "split_on d (c # cs) =
     (if c = d then [] # split_on d cs
      else (case split_on d cs of [] \<Rightarrow> [[c]] | w # ws \<Rightarrow> (c # w) # ws))"

fun split_ws :: "unistr \<Rightarrow> unistr \<Rightarrow> unistr list" where
  \<comment> \<open>\<open>s.split()\<close>: cut at runs of whitespace, no empty pieces; the first argument is the
      word being read, reversed\<close>
  "split_ws cur [] = (if cur = [] then [] else [rev cur])"
| "split_ws cur (c # cs) =
     (if isspace c then (if cur = [] then split_ws [] cs else rev cur # split_ws [] cs)
      else split_ws (c # cur) cs)"

definition split :: "unistr \<Rightarrow> unistr list" where
  "split s = split_ws [] s"

fun join :: "unistr \<Rightarrow> unistr list \<Rightarrow> unistr" where
  \<comment> \<open>\<open>sep.join(xs)\<close>\<close>
  "join sep [] = []"
| "join sep [x] = x"
| "join sep (x # y # ys) = x @ sep @ join sep (y # ys)"

fun starts_with :: "unistr \<Rightarrow> unistr \<Rightarrow> bool" where
  "starts_with s [] = True"
| "starts_with [] (p # ps) = False"
| "starts_with (c # cs) (p # ps) = (c = p \<and> starts_with cs ps)"

fun contains :: "unistr \<Rightarrow> unistr \<Rightarrow> bool" where
  \<comment> \<open>\<open>p in s\<close>\<close>
  "contains [] p = (p = [])"
| "contains (c # cs) p = (starts_with (c # cs) p \<or> contains cs p)"

definition str_isalpha :: "unicode \<Rightarrow> unistr \<Rightarrow> bool" where
  \<comment> \<open>\<open>w.isalpha()\<close>: every character a letter, and at least one character\<close>
  "str_isalpha U w \<longleftrightarrow> w \<noteq> [] \<and> list_all (isalpha U) w"

section \<open>Text Extractor\<close>

datatype error = DecodeError | ModelError | OCRError | IndexError

datatype ocr_pass = Pass_sparse | Pass_contrast | Pass_dates

text \<open>
  An image is what the imaging and OCR libraries return on it: whether the conversion to
  grayscale succeeds, and for each of the three pass configurations the raw string of
  \<open>pytesseract.image_to_string\<close> or the exception it raises.  \<open>Pass_sparse\<close> is the
  grayscale pass with \<open>--psm 11 --oem 3\<close>, \<open>Pass_contrast\<close> the contrast enhancement
  followed by \<open>--psm 6 --oem 3\<close>, \<open>Pass_dates\<close> the pass with the date whitelist.
\<close>

record image =
  convert_L :: "error option"
  ocr :: "ocr_pass \<Rightarrow> error + unistr"

definition nonblank :: "unistr \<Rightarrow> bool" where
  \<comment> \<open>the truth value of \<open>t.strip()\<close>\<close>
  "nonblank t \<longleftrightarrow> strip t \<noteq> []"

definition clean_lines :: "unistr \<Rightarrow> unistr" where
  \<comment> \<open>\<open>' '.join([line.strip() for line in t.split('\n') if line.strip()])\<close>\<close>
  "clean_lines t = join [SP] (map strip (filter nonblank (split_on LF t)))"

definition optional_pass :: "image \<Rightarrow> ocr_pass \<Rightarrow> unistr list" where
  \<comment> \<open>a pass inside its own \<open>try\<close>: an exception is logged and nothing is appended\<close>
  "optional_pass img p =
     (case ocr img p of Inl e \<Rightarrow> [] | Inr t \<Rightarrow> if nonblank t then [t] else [])"

definition extract_text :: "image \<Rightarrow> unistr" where
  \<comment> \<open>\<open>image_recognition.py\<close>; the outer \<open>except\<close> returns the empty string\<close>
  "extract_text img =
     (case convert_L img of Some e \<Rightarrow> []
      | None \<Rightarrow>
          (case ocr img Pass_sparse of Inl e \<Rightarrow> []
           | Inr text1 \<Rightarrow>
               let results = (if nonblank text1 then [text1] else [])
                     @ optional_pass img Pass_contrast @ optional_pass img Pass_dates;
                   all_text = join [LF] results
               in clean_lines all_text))"

definition extract_text_new :: "image \<Rightarrow> unistr" where
  \<comment> \<open>\<open>image_recognition_new.py\<close>: the single grayscale pass\<close>
  "extract_text_new img =
     (case convert_L img of Some e \<Rightarrow> []
      | None \<Rightarrow> (case ocr img Pass_sparse of Inl e \<Rightarrow> [] | Inr t \<Rightarrow> clean_lines t))"

section \<open>Regular expressions\<close>

text \<open>
  The patterns of the source, as backtracking matchers in continuation style.  A matcher
  takes the rest of the input and returns the input left over after the first complete
  match that Python's search order finds, or \<open>None\<close>; the continuation is the rest of the
  pattern.  Greedy repetition tries the longest run first, lazy repetition the shortest.
\<close>

type_synonym matcher = "unistr \<Rightarrow> unistr option"

definition re_done :: matcher where
  "re_done s = Some s"

definition re_char :: "(codepoint \<Rightarrow> bool) \<Rightarrow> matcher \<Rightarrow> matcher" where
  "re_char P k s = (case s of [] \<Rightarrow> None | c # cs \<Rightarrow> if P c then k cs else None)"

definition re_lit :: "unistr \<Rightarrow> matcher \<Rightarrow> matcher" where
  "re_lit w k s = (if starts_with s w then k (drop (length w) s) else None)"

fun re_alt :: "unistr list \<Rightarrow> matcher \<Rightarrow> matcher" where
  \<comment> \<open>\<open>(w1|w2|...)\<close>, the alternatives tried in order\<close>
  "re_alt [] k s = None"
| "re_alt (w # ws) k s = (case re_lit w k s of Some r \<Rightarrow> Some r | None \<Rightarrow> re_alt ws k s)"

fun re_star :: "(codepoint \<Rightarrow> bool) \<Rightarrow> matcher \<Rightarrow> matcher" where
  \<comment> \<open>\<open>P*\<close>\<close>
  "re_star P k [] = k []"
| "re_star P k (c # cs) =
     (if P c then (case re_star P k cs of Some r \<Rightarrow> Some r | None \<Rightarrow> k (c # cs))
      else k (c # cs))"

definition re_plus :: "(codepoint \<Rightarrow> bool) \<Rightarrow> matcher \<Rightarrow> matcher" where
  \<comment> \<open>\<open>P+\<close>\<close>
  "re_plus P k = re_char P (re_star P k)"

fun re_lazy :: "(codepoint \<Rightarrow> bool) \<Rightarrow> matcher \<Rightarrow> matcher" where
  \<comment> \<open>\<open>P*?\<close>\<close>
  "re_lazy P k [] = k []"
| "re_lazy P k (c # cs) =
     (case k (c # cs) of Some r \<Rightarrow> Some r
      | None \<Rightarrow> if P c then re_lazy P k cs else None)"

definition re_opt :: "(codepoint \<Rightarrow> bool) \<Rightarrow> matcher \<Rightarrow> matcher" where
  \<comment> \<open>\<open>P?\<close>\<close>
  "re_opt P k s =
     (case s of [] \<Rightarrow> k []
      | c # cs \<Rightarrow> if P c then (case k cs of Some r \<Rightarrow> Some r | None \<Rightarrow> k s) else k s)"

fun re_search :: "matcher \<Rightarrow> unistr \<Rightarrow> unistr option" where
  \<comment> \<open>\<open>re.search\<close>: the leftmost start with a match; returns \<open>group(0)\<close>\<close>
  "re_search m [] = (case m [] of None \<Rightarrow> None | Some r \<Rightarrow> Some [])"
| "re_search m (c # cs) =
     (case m (c # cs) of Some r \<Rightarrow> Some (take (Suc (length cs) - length r) (c # cs))
      | None \<Rightarrow> re_search m cs)"

definition dot :: "codepoint \<Rightarrow> bool" where
  \<comment> \<open>\<open>.\<close> without DOTALL: anything but a line feed\<close>
  "dot c \<longleftrightarrow> c \<noteq> LF"

definition word_char :: "unicode \<Rightarrow> codepoint \<Rightarrow> bool" where
  \<comment> \<open>\<open>\w\<close>\<close>
  "word_char U c \<longleftrightarrow> isalnum U c \<or> c = 95"

definition umlaut :: "codepoint \<Rightarrow> bool" where
  "umlaut c \<longleftrightarrow> c \<in> {a_uml, o_uml, u_uml, A_uml, O_uml, U_uml, eszett}"

definition kept :: "unicode \<Rightarrow> codepoint \<Rightarrow> bool" where
  \<comment> \<open>the complement of the class \<open>[^\w\s...]\<close> with the seven German letters\<close>
  "kept U c \<longleftrightarrow> word_char U c \<or> isspace c \<or> umlaut c"

definition kept_new :: "unicode \<Rightarrow> codepoint \<Rightarrow> bool" where
  \<comment> \<open>the complement of \<open>[^\w\s]\<close>\<close>
  "kept_new U c \<longleftrightarrow> word_char U c \<or> isspace c"

fun collapse_from :: "bool \<Rightarrow> unistr \<Rightarrow> unistr" where
  \<comment> \<open>the flag says that the previous character belonged to a whitespace run, which has
      already been replaced\<close>
  "collapse_from in_run [] = []"
| "collapse_from in_run (c # cs) =
     (if isspace c then (if in_run then collapse_from True cs else SP # collapse_from True cs)
      else c # collapse_from False cs)"

definition collapse_ws :: "unistr \<Rightarrow> unistr" where
  \<comment> \<open>\<open>re.sub(r'\s+', ' ', s)\<close>\<close>
  "collapse_ws s = collapse_from False s"

definition flour_pattern :: "unicode \<Rightarrow> matcher" where
  \<comment> \<open>\<open>(weizen|mehl|weizenmehl|vollkorn).*?typ\s*\d+\<close>\<close>
  "flour_pattern U =
     re_alt [str ''weizen'', str ''mehl'', str ''weizenmehl'', str ''vollkorn'']
       (re_lazy dot (re_lit (str ''typ'') (re_star isspace (re_plus (isdecimal U) re_done))))"

definition price_pattern :: "unicode \<Rightarrow> matcher" where
  \<comment> \<open>\<open>\d+[,.]\d+\s*\<close> and the euro sign\<close>
  "price_pattern U =
     re_plus (isdecimal U) (re_char (\<lambda>c. c = 44 \<or> c = 46)
       (re_plus (isdecimal U) (re_star isspace (re_lit [euro] re_done))))"

definition isbn_pattern :: "unicode \<Rightarrow> matcher" where
  \<comment> \<open>\<open>ISBN.*?\d[-\s]?\d\<close>\<close>
  "isbn_pattern U =
     re_lit (str ''ISBN'') (re_lazy dot (re_char (isdecimal U)
       (re_opt (\<lambda>c. c = 45 \<or> isspace c) (re_char (isdecimal U) re_done))))"

definition typ_pattern :: "unicode \<Rightarrow> matcher" where
  \<comment> \<open>\<open>(Typ|TYP|Type)\s*\d+\<close>\<close>
  "typ_pattern U =
     re_alt [str ''Typ'', str ''TYP'', str ''Type'']
       (re_star isspace (re_plus (isdecimal U) re_done))"

section \<open>Meaningfulness Filter\<close>

text \<open>
  Python's floats are modelled by the reals: the ratios below are compared with decimal
  constants, and the confidences are compared and multiplied, as exact numbers.
\<close>

definition count_where :: "('a \<Rightarrow> bool) \<Rightarrow> 'a list \<Rightarrow> nat" where
  \<comment> \<open>\<open>sum(P(c) for c in s)\<close>\<close>
  "count_where P s = length (filter P s)"

definition special_char :: "unicode \<Rightarrow> codepoint \<Rightarrow> bool" where
  \<comment> \<open>\<open>not c.isalnum() and not c.isspace()\<close>\<close>
  "special_char U c \<longleftrightarrow> \<not> isalnum U c \<and> \<not> isspace c"

definition common_german_words :: "unistr list" where
  "common_german_words =
     [str ''und'', str ''der'', str ''die'', str ''das'', str ''mit'',
      str ''f'' @ [u_uml] @ str ''r'', str ''von'', str ''bei'', str ''aus'', str ''Buch'',
      str ''Text'', str ''Wort'', str ''Preis'', str ''Euro'', str ''Kauf'', str ''Geld'',
      str ''Zeit'', str ''Jahr'', str ''Leben'',
      str ''Mensch'', str ''Mann'', str ''Frau'', str ''Kind'', str ''Stadt'', str ''Land'',
      str ''Haus'', str ''Auto'', str ''Wasser'',
      str ''Essen'', str ''Milch'', str ''Brot'', str ''Zucker'', str ''Salz'', str ''Butter'',
      str ''K'' @ [a_uml] @ str ''se'', str ''Fleisch'',
      str ''Obst'', str ''Gem'' @ [u_uml] @ str ''se'', str ''Wein'', str ''Bier'', str ''Hotel'',
      str ''Restaurant'', str ''Schule'', str ''Arbeit'',
      str ''Schrift'', str ''Brief'', str ''Post'', str ''Zeitung'', str ''Markt'',
      str ''Stra'' @ [eszett] @ str ''e'', str ''Zimmer'', str ''Tisch'',
      str ''Stuhl'', str ''Bett'', str ''K'' @ [u_uml] @ str ''che'', str ''Bad'', str ''Wohnung'',
      str ''Fenster'', str ''T'' @ [u_uml] @ str ''r'', str ''Dach'', str ''Wand'',
      str ''Mehl'', str ''Weizen'', str ''Wei'' @ [eszett] @ str ''mehl'', str ''Weizenmehl'',
      str ''Vollkorn'', str ''Vollkornmehl'', str ''Teig'',
      str ''Teigwaren'', str ''Pasta'', str ''Spaghetti'', str ''Nudel'', str ''Nudeln'',
      str ''Reis'', str ''Kartoffel'',
      str ''Kartoffeln'', str ''Getr'' @ [a_uml] @ str ''nk'', str ''Getr'' @ [a_uml] @ str ''nke'',
      str ''Cola'', str ''Limonade'', str ''Saft'', str ''Apfel'',
      str ''Banane'', str ''Orange'', str ''Birne'', str ''Erdbeere'', str ''Himbeere'',
      str ''Brombeere'', str ''Heidelbeere'']"

fun consecutive_words :: "unicode \<Rightarrow> unistr list \<Rightarrow> nat" where
  \<comment> \<open>the pairs \<open>words[i], words[i+1]\<close> that are both alphabetic\<close>
  "consecutive_words U (v # w # ws) =
     (if str_isalpha U v \<and> str_isalpha U w then 1 else 0) + consecutive_words U (w # ws)"
| "consecutive_words U ws = 0"

definition special_patterns :: "unicode \<Rightarrow> unistr \<Rightarrow> unistr \<Rightarrow> bool" where
  \<comment> \<open>the four pattern tests that end \<open>is_meaningful_text\<close> of \<open>image_recognition.py\<close>\<close>
  "special_patterns U text cleaned_text =
     (if re_search (flour_pattern U) (lower U cleaned_text) \<noteq> None then True
      else if contains (lower U text) (str ''www.'') \<and> contains (lower U text) (str ''.de'')
        then True
      else if re_search (price_pattern U) text \<noteq> None then True
      else if re_search (isbn_pattern U) text \<noteq> None then True
      else False)"

definition is_meaningful_text :: "unicode \<Rightarrow> unistr \<Rightarrow> bool" where
  \<comment> \<open>\<open>image_recognition.py\<close>, the strict filter\<close>
  "is_meaningful_text U text =
     (if text = [] \<or> length (strip text) < 6 then False
      else
        let special_chars_count = count_where (special_char U) text
        in if real special_chars_count / (real (length text) + 0.001) > 0.3 then False
        else
          let cleaned_text = strip (filter (kept U) text)
          in if length cleaned_text < 6 then False
          else
            let words = split cleaned_text;
                meaningful_words = filter (\<lambda>w. length w \<ge> 5 \<and> str_isalpha U w) words
            in if length meaningful_words < 1 then False
            else
              let known_words =
                    map (lower U) (filter (\<lambda>w. lower U w \<in> set common_german_words) words);
                  letters = count_where (isalpha U) cleaned_text
              in if (length known_words \<ge> 2 \<or>
                      (length known_words \<ge> 1 \<and> length meaningful_words \<ge> 2)) \<and>
                    real letters / (real (length cleaned_text) + 0.001) > 0.7
                 then (if consecutive_words U words > 0 then True
                       else if filter (\<lambda>w. length w \<ge> 6) known_words \<noteq> [] then True
                       else False)
                 else special_patterns U text cleaned_text)"

definition is_meaningful_text_new :: "unicode \<Rightarrow> unistr \<Rightarrow> bool" where
  \<comment> \<open>\<open>image_recognition_new.py\<close>, the legacy filter\<close>
  "is_meaningful_text_new U text =
     (if text = [] \<or> length (strip text) < 3 then False
      else
        let cleaned_text = strip (filter (kept_new U) text)
        in if length cleaned_text < 3 then False
        else
          let words = split cleaned_text;
              meaningful_words = filter (\<lambda>w. length w \<ge> 3) words;
              letters = count_where (isalpha U) cleaned_text
          in if length meaningful_words \<ge> 1 \<and>
                real letters / (real (length cleaned_text) + 0.001) > 0.5
             then True
             else False)"

section \<open>Product Title Extractor\<close>

definition title_clean :: "unicode \<Rightarrow> unistr \<Rightarrow> unistr" where
  \<comment> \<open>the two substitutions and the strip that open \<open>get_best_text_for_title\<close>\<close>
  "title_clean U text = strip (collapse_ws (map (\<lambda>c. if kept U c then c else SP) text))"

fun longest_from :: "unistr \<Rightarrow> unistr list \<Rightarrow> unistr" where
  \<comment> \<open>\<open>max(ws, key=len)\<close> keeps the first of the longest words\<close>
  "longest_from b [] = b"
| "longest_from b (w # ws) = longest_from (if length b < length w then w else b) ws"

fun first_contained :: "unicode \<Rightarrow> unistr list \<Rightarrow> unistr \<Rightarrow> unistr option" where
  \<comment> \<open>the loop over \<open>common_product_words\<close>\<close>
  "first_contained U [] s = None"
| "first_contained U (w # ws) s =
     (if contains (lower U s) (lower U w) then Some w else first_contained U ws s)"

definition filter_words :: "unistr list" where
  "filter_words =
     [str ''typ'', str ''type'', str ''ml'', str ''l'', str ''g'', str ''kg'', str ''m'',
      str ''cm'', str ''mm'', str ''the'', str ''und'']"

definition common_product_words :: "unistr list" where
  "common_product_words =
     [str ''Mehl'', str ''Weizenmehl'', str ''Zucker'', str ''Salz'', str ''Milch'',
      str ''Brot'', str ''Wasser'', str ''Butter'', str ''K'' @ [a_uml] @ str ''se'',
      str ''Buch'', str ''ISBN'', str ''Roman'', str ''Kaffee'', str ''Tee'', str ''Wein'']"

definition shorten :: "unistr \<Rightarrow> unistr" where
  \<comment> \<open>titles over 20 characters are cut to 17 and three dots\<close>
  "shorten title = (if length title > 20 then take 17 title @ str ''...'' else title)"

definition get_best_text_for_title :: "unicode \<Rightarrow> unistr \<Rightarrow> unistr" where
  \<comment> \<open>\<open>image_recognition.py\<close>\<close>
  "get_best_text_for_title U text =
     (if text = [] then str ''Text''
      else
        let cleaned_text = title_clean U text
        in if cleaned_text = [] \<or> length cleaned_text < 3 then str ''Text''
        else
          let words = split cleaned_text;
              meaningful_words =
                filter (\<lambda>word. \<not> (length word < 3 \<or> lower U word \<in> set filter_words) \<and>
                          real (count_where (isalpha U) word) / (real (length word) + 0.001) > 0.5)
                  words
          in case meaningful_words of
               [] \<Rightarrow> (case re_search (typ_pattern U) cleaned_text of
                         Some g \<Rightarrow> capitalize U g
                       | None \<Rightarrow> str ''Text'')
             | w # ws \<Rightarrow>
                 (case first_contained U common_product_words cleaned_text of
                    Some product_word \<Rightarrow> product_word
                  | None \<Rightarrow>
                      let longest_word = longest_from w ws
                      in if length longest_word \<ge> 5 then capitalize U longest_word
                         else if length meaningful_words = 1 then capitalize U w
                         else capitalize U (shorten (join [SP] (take 2 meaningful_words)))))"

definition get_best_text_for_title_new :: "unicode \<Rightarrow> unistr \<Rightarrow> unistr" where
  \<comment> \<open>\<open>image_recognition_new.py\<close>\<close>
  "get_best_text_for_title_new U text =
     (if text = [] then str ''Text''
      else
        let cleaned_text = title_clean U text
        in if cleaned_text = [] \<or> length cleaned_text < 3 then str ''Text''
        else
          (case split cleaned_text of
             w # ws \<Rightarrow>
               let words = w # ws; longest_word = longest_from w ws
               in if length longest_word \<ge> 5 \<and>
                     real (length longest_word) \<ge> real (length cleaned_text) * 0.3
                  then capitalize U longest_word
                  else if length words = 1 then capitalize U w
                  else if length words = 2 then capitalize U (join [SP] words)
                  else capitalize U (shorten (join [SP] (take 3 words)))
           | [] \<Rightarrow>
               if length cleaned_text > 20 then capitalize U (take 17 cleaned_text) @ str ''...''
               else capitalize U cleaned_text))"

section \<open>Product Identifier\<close>

record product =
  name :: unistr
  description :: unistr
  confidence_boost :: real

definition entry :: "string \<Rightarrow> string \<Rightarrow> real \<Rightarrow> product" where
  "entry n d b = \<lparr> name = str n, description = str d, confidence_boost = b \<rparr>"

text \<open>
  The registries are dictionaries iterated in insertion order, so each is the list of
  its items.  \<open>image_recognition.py\<close> defines its registry inside
  \<open>identify_product_from_text\<close>, where it hides the one at module level;
  \<open>image_recognition_new.py\<close> uses the registry at module level.
\<close>

definition PRODUCT_TEXT_MAPPING :: "(unistr \<times> product) list" where
  "PRODUCT_TEXT_MAPPING =
     [(str ''Mehl'', entry ''Mehl'' ''Weizenmehl'' 1.2),
      (str ''Weizenmehl'', entry ''Weizenmehl'' ''Weizenmehl'' 1.5),
      (str ''Zucker'', entry ''Zucker'' ''Zucker'' 1.2),
      (str ''Raffinadezucker'', entry ''Raffinadezucker'' ''Feiner Zucker'' 1.5),
      (str ''Milch'', entry ''Milch'' ''Frische Milch'' 1.2),
      (str ''Vollmilch'', entry ''Vollmilch'' ''Vollmilch'' 1.5),
      (str ''Brot'', entry ''Brot'' ''Brot'' 1.2),
      (str ''Vollkornbrot'', entry ''Vollkornbrot'' ''Vollkornbrot'' 1.5),
      (str ''Wasser'', entry ''Wasser'' ''Mineralwasser'' 1.2),
      (str ''Mineralwasser'', entry ''Mineralwasser'' ''Mineralwasser'' 1.5),
      (str ''Butter'', entry ''Butter'' ''Butter'' 1.5),
      (str ''K'' @ [a_uml] @ str ''se'',
         \<lparr> name = str ''K'' @ [a_uml] @ str ''se'',
           description = str ''K'' @ [a_uml] @ str ''se'', confidence_boost = 1.2 \<rparr>),
      (str ''Gouda'',
         \<lparr> name = str ''Gouda'', description = str ''Gouda K'' @ [a_uml] @ str ''se'',
           confidence_boost = 1.5 \<rparr>),
      (str ''Buch'', entry ''Buch'' ''Buch'' 1.2),
      (str ''ISBN'', entry ''Buch'' ''Buch mit ISBN'' 1.5),
      (str ''Roman'', entry ''Roman'' ''Romanwerk'' 1.3),
      (str ''Kaffee'', entry ''Kaffee'' ''Kaffee'' 1.3),
      (str ''Tee'', entry ''Tee'' ''Tee'' 1.3),
      (str ''Zeitung'', entry ''Zeitung'' ''Tageszeitung'' 1.3),
      (str ''Magazin'', entry ''Magazin'' ''Zeitschrift'' 1.3),
      (str ''Wein'', entry ''Wein'' ''Weinflasche'' 1.3),
      (str ''Rotwein'', entry ''Rotwein'' ''Rotwein'' 1.5),
      (str ''Wei'' @ [eszett] @ str ''wein'',
         \<lparr> name = str ''Wei'' @ [eszett] @ str ''wein'',
           description = str ''Wei'' @ [eszett] @ str ''wein'', confidence_boost = 1.5 \<rparr>)]"

definition PRODUCT_TEXT_MAPPING_new :: "(unistr \<times> product) list" where
  "PRODUCT_TEXT_MAPPING_new =
     [(str ''Weizenmehl'', entry ''Weizenmehl'' ''Weizenmehl'' 0.8),
      (str ''Mehl'', entry ''Mehl'' ''Mehl'' 0.6),
      (str ''TYP 405'', entry ''Weizenmehl_405'' ''Weizenmehl Type 405'' 0.7),
      (str ''Milch'', entry ''Milch'' ''Milch'' 0.7),
      (str ''Vollmilch'', entry ''Vollmilch'' ''Vollmilch'' 0.8),
      (str ''Joghurt'', entry ''Joghurt'' ''Joghurt'' 0.7),
      (str ''Cola'', entry ''Cola'' ''Cola'' 0.7),
      (str ''Fanta'', entry ''Fanta'' ''Fanta'' 0.7),
      (str ''Wasser'', entry ''Wasser'' ''Wasser'' 0.6),
      (str ''Schokolade'', entry ''Schokolade'' ''Schokolade'' 0.7),
      (str ''Chips'', entry ''Chips'' ''Chips'' 0.7),
      (str ''Tomaten'', entry ''Tomaten'' ''Tomaten'' 0.6),
      (str ''Mais'', entry ''Mais'' ''Mais'' 0.6),
      (str ''Bio'', entry ''Bio_Produkt'' ''Bio-Produkt'' 0.5),
      (str ''Zucker'', entry ''Zucker'' ''Zucker'' 0.7),
      (str ''Salz'', entry ''Salz'' ''Salz'' 0.7)]"

fun scan :: "unicode \<Rightarrow> unistr \<Rightarrow> (unistr \<times> product) list \<Rightarrow> product option \<times> real
    \<Rightarrow> product option \<times> real" where
  \<comment> \<open>the loop over the registry; the state is \<open>(best_match, best_score)\<close>\<close>
  "scan U text_lower [] best = best"
| "scan U text_lower ((key, product) # rest) (best_match, best_score) =
     (if contains text_lower (lower U key) then
        let score = real (length key) * confidence_boost product
        in if score > best_score then scan U text_lower rest (Some product, score)
           else scan U text_lower rest (best_match, best_score)
      else scan U text_lower rest (best_match, best_score))"

definition registry_match :: "unicode \<Rightarrow> (unistr \<times> product) list \<Rightarrow> unistr \<Rightarrow> product option"
  where
  \<comment> \<open>\<open>best_match\<close> after the loop, which starts from \<open>(None, 0)\<close>\<close>
  "registry_match U registry text = fst (scan U (lower U text) registry (None, 0))"

definition identify_product_from_text :: "unicode \<Rightarrow> unistr \<Rightarrow> product option" where
  \<comment> \<open>\<open>image_recognition.py\<close>\<close>
  "identify_product_from_text U text =
     (if text = [] \<or> strip text = [] then None
      else
        (case registry_match U PRODUCT_TEXT_MAPPING text of
           Some best_match \<Rightarrow> Some best_match
         | None \<Rightarrow>
             if is_meaningful_text U text then
               let cleaned_text = get_best_text_for_title U text
               in Some \<lparr> name = cleaned_text, description = cleaned_text,
                         confidence_boost = 0.85 \<rparr>
             else None))"

definition identify_product_from_text_new :: "unicode \<Rightarrow> unistr \<Rightarrow> product option" where
  \<comment> \<open>\<open>image_recognition_new.py\<close>\<close>
  "identify_product_from_text_new U text =
     (if text = [] \<or> strip text = [] then None
      else
        (case registry_match U PRODUCT_TEXT_MAPPING_new text of
           Some best_match \<Rightarrow> Some best_match
         | None \<Rightarrow>
             if is_meaningful_text_new U text then
               let cleaned_text = get_best_text_for_title_new U text
               in Some \<lparr> name = cleaned_text, description = cleaned_text,
                         confidence_boost = 0.9 \<rparr>
             else None))"

section \<open>Fusion Engine\<close>

text \<open>
  An entry of the result list is a dictionary with four keys that are always present and
  two that may be absent, which are options here.
\<close>

record prediction =
  class_id :: int
  class_name :: unistr
  class_description :: unistr
  confidence :: real
  extracted_text :: "unistr option"
  identified_by_text :: "bool option"

text \<open>
  A request is what the collaborators return on the uploaded file: the decoded image or
  the exception of \<open>preprocess_image\<close>, and the pairs of class index and probability that
  the classifier, the softmax and \<open>topk\<close> give, or the exception raised on the way.  The
  label names of the classifier are a function of the class index.
\<close>

record request =
  decoded :: "error + image"
  top5 :: "error + (nat \<times> real) list"

definition replace_char :: "codepoint \<Rightarrow> unistr \<Rightarrow> unistr \<Rightarrow> unistr" where
  \<comment> \<open>\<open>s.replace(c, r)\<close> for a one-character \<open>c\<close>\<close>
  "replace_char c r s = concat (map (\<lambda>x. if x = c then r else [x]) s)"

definition slug :: "unicode \<Rightarrow> unistr \<Rightarrow> unistr" where
  \<comment> \<open>\<open>class_name.lower().replace(' ', '_').replace("'", '').replace(',', '')\<close>\<close>
  "slug U label =
     replace_char 44 [] (replace_char 39 [] (replace_char SP [95] (lower U label)))"

definition text_result :: "product \<Rightarrow> real \<Rightarrow> unistr \<Rightarrow> prediction" where
  \<comment> \<open>the entry of a product identified by text, with the confidence given to it\<close>
  "text_result p conf extracted =
     \<lparr> class_id = - 1, class_name = name p, class_description = description p,
       confidence = conf, extracted_text = Some extracted, identified_by_text = Some True \<rparr>"

definition visual_result :: "unicode \<Rightarrow> (nat \<Rightarrow> unistr) \<Rightarrow> nat \<times> real \<Rightarrow> prediction" where
  "visual_result U categories ip =
     \<lparr> class_id = int (fst ip), class_name = slug U (categories (fst ip)),
       class_description = categories (fst ip), confidence = snd ip,
       extracted_text = None, identified_by_text = None \<rparr>"

definition visual_results ::
  "unicode \<Rightarrow> (nat \<Rightarrow> unistr) \<Rightarrow> (nat \<times> real) list \<Rightarrow> unistr \<Rightarrow> product option
     \<Rightarrow> prediction list" where
  \<comment> \<open>the loop over the classifier's pairs; the first entry carries the extracted text
      when that is not empty and no product was identified by text\<close>
  "visual_results U categories ranked extracted text_based_product =
     (case map (visual_result U categories) ranked of
        [] \<Rightarrow> []
      | r # rs \<Rightarrow>
          (if extracted \<noteq> [] \<and> text_based_product = None
           then r\<lparr>extracted_text := Some extracted\<rparr> else r) # rs)"

definition text_channel :: "unicode \<Rightarrow> real \<Rightarrow> image \<Rightarrow> unistr \<times> product option" where
  \<comment> \<open>\<open>image_recognition.py\<close>, the two gates of \<open>predict\<close>: the extracted text and the
      product identified by text that are left after them\<close>
  "text_channel U top_image_confidence original_img =
     (if top_image_confidence > 0.75 then ([], None)
      else
        let extracted = extract_text original_img
        in if is_meaningful_text U extracted then
             (case identify_product_from_text U extracted of
                None \<Rightarrow> (extracted, None)
              | Some p \<Rightarrow>
                  if top_image_confidence > 0.4 \<and> confidence_boost p < 1.2
                  then (extracted, None)
                  else (extracted, Some p))
           else (extracted, None))"

definition fused_results ::
  "unicode \<Rightarrow> (nat \<Rightarrow> unistr) \<Rightarrow> (nat \<times> real) list \<Rightarrow> unistr \<times> product option
     \<Rightarrow> prediction list" where
  \<comment> \<open>\<open>image_recognition.py\<close>: the list \<open>results\<close> before it is cut to five\<close>
  "fused_results U categories ranked tc =
     (case snd tc of
        None \<Rightarrow> []
      | Some p \<Rightarrow> [text_result p (0.95 * confidence_boost p) (fst tc)])
     @ visual_results U categories ranked (fst tc) (snd tc)"

definition predict :: "unicode \<Rightarrow> (nat \<Rightarrow> unistr) \<Rightarrow> request \<Rightarrow> error + prediction list" where
  \<comment> \<open>\<open>image_recognition.py\<close>; \<open>top5_prob[0]\<close> needs a first pair\<close>
  "predict U categories req =
     (case decoded req of Inl e \<Rightarrow> Inl e
      | Inr original_img \<Rightarrow>
     (case top5 req of Inl e \<Rightarrow> Inl e
      | Inr ranked \<Rightarrow>
     (case ranked of [] \<Rightarrow> Inl IndexError
      | first # others \<Rightarrow>
          Inr (take 5 (fused_results U categories ranked
                        (text_channel U (snd first) original_img))))))"

definition text_channel_new :: "unicode \<Rightarrow> image \<Rightarrow> unistr \<times> product option" where
  \<comment> \<open>\<open>image_recognition_new.py\<close>: text is extracted and identified on every request\<close>
  "text_channel_new U original_img =
     (let extracted = extract_text_new original_img
      in (extracted, identify_product_from_text_new U extracted))"

definition fused_results_new ::
  "unicode \<Rightarrow> (nat \<Rightarrow> unistr) \<Rightarrow> (nat \<times> real) list \<Rightarrow> unistr \<times> product option
     \<Rightarrow> prediction list" where
  \<comment> \<open>\<open>image_recognition_new.py\<close>: the list \<open>results\<close> before it is cut to five\<close>
  "fused_results_new U categories ranked tc =
     (case snd tc of
        None \<Rightarrow> []
      | Some p \<Rightarrow> [text_result p 0.95 (fst tc)])
     @ visual_results U categories ranked (fst tc) (snd tc)"

definition predict_new :: "unicode \<Rightarrow> (nat \<Rightarrow> unistr) \<Rightarrow> request \<Rightarrow> error + prediction list"
  where
  \<comment> \<open>\<open>image_recognition_new.py\<close>\<close>
  "predict_new U categories req =
     (case decoded req of Inl e \<Rightarrow> Inl e
      | Inr original_img \<Rightarrow>
          let tc = text_channel_new U original_img
          in (case top5 req of Inl e \<Rightarrow> Inl e
              | Inr ranked \<Rightarrow> Inr (take 5 (fused_results_new U categories ranked tc))))"

definition text_based :: "prediction \<Rightarrow> bool" where
  \<comment> \<open>the entries that \<open>predict\<close> builds from an identified product: they alone carry the
      key \<open>identified_by_text\<close>\<close>
  "text_based r \<longleftrightarrow> identified_by_text r = Some True"

section \<open>Properties stated over the results\<close>

definition trimmed :: "unistr \<Rightarrow> bool" where
  \<comment> \<open>no whitespace at either end\<close>
  "trimmed s \<longleftrightarrow> s = [] \<or> (\<not> isspace (hd s) \<and> \<not> isspace (last s))"

fun ws_run :: "unistr \<Rightarrow> bool" where
  \<comment> \<open>two whitespace characters in a row somewhere\<close>
  "ws_run (a # b # cs) = ((isspace a \<and> isspace b) \<or> ws_run (b # cs))"
| "ws_run cs = False"

definition normalized :: "unistr \<Rightarrow> bool" where
  \<comment> \<open>the specification's normal form of an extracted text\<close>
  "normalized s \<longleftrightarrow> strip s = s \<and> \<not> ws_run s"

definition noise_fraction :: "unicode \<Rightarrow> unistr \<Rightarrow> real" where
  \<comment> \<open>the share of characters that are neither alphanumeric nor whitespace\<close>
  "noise_fraction U t = real (count_where (special_char U) t) / real (length t)"

definition text_entry_first :: "prediction list \<Rightarrow> bool" where
  \<comment> \<open>an entry that is marked as identified by text, or has the class id \<open>-1\<close>, is the
      first of the list and has both marks\<close>
  "text_entry_first res \<longleftrightarrow>
     (\<forall>i<length res. text_based (res ! i) \<or> class_id (res ! i) = - 1 \<longrightarrow>
        i = 0 \<and> class_id (res ! i) = - 1 \<and> identified_by_text (res ! i) = Some True)"

definition kept_by_cut :: "prediction list \<Rightarrow> bool" where
  \<comment> \<open>cutting the list to five entries drops no text-based entry\<close>
  "kept_by_cut full \<longleftrightarrow>
     (\<forall>r\<in>set (drop 5 full). \<not> text_based r) \<and>
     (\<forall>r\<in>set full. text_based r \<longrightarrow> r \<in> set (take 5 full))"

definition visual_only :: "prediction list \<Rightarrow> bool" where
  \<comment> \<open>entries of the classifier only\<close>
  "visual_only vs \<longleftrightarrow> list_all (\<lambda>r. \<not> text_based r \<and> class_id r \<noteq> - 1) vs"

section \<open>Sample inputs\<close>

definition blank_after :: "unistr \<Rightarrow> ocr_pass \<Rightarrow> error + unistr" where
  \<comment> \<open>an OCR that reads the given text in the first pass and nothing in the other two\<close>
  "blank_after t p = (case p of Pass_sparse \<Rightarrow> Inr t | _ \<Rightarrow> Inr [])"

definition img_reading :: "unistr \<Rightarrow> image" where
  "img_reading t = \<lparr> convert_L = None, ocr = blank_after t \<rparr>"

definition first_pass_fails :: "ocr_pass \<Rightarrow> error + unistr" where
  "first_pass_fails p = (case p of Pass_sparse \<Rightarrow> Inl OCRError | _ \<Rightarrow> Inr (str ''Milch''))"

definition img_first_pass_fails :: image where
  "img_first_pass_fails = \<lparr> convert_L = None, ocr = first_pass_fails \<rparr>"

definition second_pass_fails :: "ocr_pass \<Rightarrow> error + unistr" where
  "second_pass_fails p =
     (case p of Pass_contrast \<Rightarrow> Inl OCRError | _ \<Rightarrow> Inr (str ''Milch''))"

definition img_second_pass_fails :: image where
  "img_second_pass_fails = \<lparr> convert_L = None, ocr = second_pass_fails \<rparr>"

definition labels :: "nat \<Rightarrow> unistr" where
  \<comment> \<open>a label set that names every class alike\<close>
  "labels i = str ''tabby, tabby cat''"

definition ranked5 :: "real \<Rightarrow> (nat \<times> real) list" where
  \<comment> \<open>five classes, the first with the given confidence\<close>
  "ranked5 c = [(281, c), (282, 0.05), (285, 0.04), (287, 0.03), (292, 0.02)]"

definition request_for :: "unistr \<Rightarrow> real \<Rightarrow> request" where
  \<comment> \<open>an image on which the OCR reads the given text and the classifier gives the given
      top confidence\<close>
  "request_for t c = \<lparr> decoded = Inr (img_reading t), top5 = Inr (ranked5 c) \<rparr>"

section \<open>Text Extractor: failures and normal form\<close>

lemma strip_trimmed: "trimmed (strip s)"
proof (cases "strip s = []")
  case True
  then show ?thesis by (simp add: trimmed_def)
next
  case False
  define d where "d = dropWhile isspace s"
  define r where "r = dropWhile isspace (rev d)"
  have s: "strip s = rev r" by (simp add: strip_def d_def r_def)
  with False have r: "r \<noteq> []" by simp
  then have "\<not> isspace (hd r)" unfolding r_def by (rule hd_dropWhile)
  then have l: "\<not> isspace (last (rev r))" using r by (simp add: last_rev)
  have "rev d = takeWhile isspace (rev d) @ r" by (simp add: r_def)
  then have "rev (rev d) = rev (takeWhile isspace (rev d) @ r)" by simp
  then have dd: "d = rev r @ rev (takeWhile isspace (rev d))" by simp
  then have "d \<noteq> []" using r by auto
  then have "\<not> isspace (hd d)" unfolding d_def by (rule hd_dropWhile)
  moreover have "hd d = hd (rev r)" using dd r by (metis hd_append2 rev_is_Nil_conv)
  ultimately show ?thesis using l by (simp add: trimmed_def s)
qed

lemma trimmed_strip: "trimmed s \<Longrightarrow> strip s = s"
proof (cases "s = []")
  case True then show ?thesis by (simp add: strip_def)
next
  case False
  assume "trimmed s"
  with False have h: "\<not> isspace (hd s)" and l: "\<not> isspace (last s)"
    by (auto simp: trimmed_def)
  from h False have "dropWhile isspace s = s" by (cases s) auto
  moreover from l False have "dropWhile isspace (rev s) = rev s"
    by (cases "rev s") (auto simp: last_rev)
  ultimately show ?thesis by (simp add: strip_def)
qed

lemma join_trimmed:
  "\<forall>x\<in>set xs. x \<noteq> [] \<and> trimmed x \<Longrightarrow> trimmed (join [SP] xs)"
proof (induction "[SP]" xs rule: join.induct)
  case 1 then show ?case by (simp add: trimmed_def)
next
  case (2 x) then show ?case by simp
next
  case (3 x y ys)
  then have t: "trimmed (join [SP] (y # ys))" by simp
  have ne: "join [SP] (y # ys) \<noteq> []" using 3(2) by (cases ys) auto
  from 3(2) have x: "x \<noteq> []" "\<not> isspace (hd x)" by (auto simp: trimmed_def)
  from t ne have "\<not> isspace (last (join [SP] (y # ys)))" by (simp add: trimmed_def)
  then show ?case using x ne by (simp add: trimmed_def)
qed

lemma clean_lines_trimmed: "trimmed (clean_lines t)"
  unfolding clean_lines_def
  by (rule join_trimmed) (auto simp: nonblank_def strip_trimmed)

lemma set_strip: "set (strip s) \<subseteq> set s"
proof
  fix x assume "x \<in> set (strip s)"
  then have "x \<in> set (dropWhile isspace (rev (dropWhile isspace s)))"
    by (simp add: strip_def)
  then have "x \<in> set (rev (dropWhile isspace s))" by (rule set_dropWhileD)
  then have "x \<in> set (dropWhile isspace s)" by simp
  then show "x \<in> set s" by (rule set_dropWhileD)
qed

lemma split_on_no_sep: "w \<in> set (split_on d t) \<Longrightarrow> d \<notin> set w"
  by (induction t arbitrary: w) (auto split: if_splits list.splits)

lemma set_join: "set (join sep xs) \<subseteq> set sep \<union> (\<Union>x\<in>set xs. set x)"
  by (induction sep xs rule: join.induct) auto

lemma clean_lines_no_LF: "LF \<notin> set (clean_lines t)"
proof
  assume "LF \<in> set (clean_lines t)"
  then have "LF \<in> set [SP] \<union> (\<Union>x\<in>set (map strip (filter nonblank (split_on LF t))). set x)"
    unfolding clean_lines_def using set_join by blast
  then obtain w where "w \<in> set (split_on LF t)" "LF \<in> set (strip w)"
    by (auto simp: LF_def SP_def)
  then show False using split_on_no_sep set_strip by blast
qed

lemma extract_text_cases:
  "extract_text img = [] \<or> (\<exists>t. extract_text img = clean_lines t)"
  by (auto simp: extract_text_def Let_def split: option.splits sum.splits)

lemma extract_text_new_cases:
  "extract_text_new img = [] \<or> (\<exists>t. extract_text_new img = clean_lines t)"
  by (auto simp: extract_text_new_def split: option.splits sum.splits)

lemma strip_Nil: "strip [] = []"
  by (simp add: strip_def)

lemma str_simps:
  "str [] = []" "str (c # cs) = of_char c # str cs"
  by (simp_all add: str_def)

lemma nonblank_Milch: "nonblank (str ''Milch'')"
  by (simp add: str_simps nonblank_def strip_def isspace_def)

lemma extract_first_pass_fails: "extract_text img_first_pass_fails = []"
  by (simp add: extract_text_def img_first_pass_fails_def first_pass_fails_def)

lemma extract_first_pass_blank:
  "extract_text (img_first_pass_fails
      \<lparr>ocr := (ocr img_first_pass_fails)(Pass_sparse := Inr [])\<rparr>) = str ''Milch Milch''"
  by (simp add: extract_text_def img_first_pass_fails_def first_pass_fails_def
        optional_pass_def nonblank_Milch Let_def)
     (simp add: nonblank_def strip_def clean_lines_def str_simps LF_def SP_def isspace_def)

text \<open>
  C7, as stated: when any one OCR pass raises, \<open>extract_text\<close> returns what it would
  return had that pass read the empty string, the other passes being run all the same.
  This fails for the first pass of \<open>image_recognition.py\<close>, which is not inside a
  \<open>try\<close> of its own: on an image whose first pass raises and whose other two passes
  read \<open>Milch\<close> the result is the empty string, not \<open>Milch Milch\<close>.
\<close>

theorem extract_text_first_pass_counterexample:
  "ocr img_first_pass_fails Pass_sparse = Inl OCRError \<and>
   extract_text img_first_pass_fails = [] \<and>
   extract_text (img_first_pass_fails
      \<lparr>ocr := (ocr img_first_pass_fails)(Pass_sparse := Inr [])\<rparr>) = str ''Milch Milch'' \<and>
   extract_text img_first_pass_fails \<noteq>
   extract_text (img_first_pass_fails
      \<lparr>ocr := (ocr img_first_pass_fails)(Pass_sparse := Inr [])\<rparr>)"
  unfolding extract_first_pass_fails extract_first_pass_blank
  by (simp add: img_first_pass_fails_def first_pass_fails_def str_simps)

text \<open>
  C7, amended: \<open>extract_text\<close> never raises (it is a total function into strings).  In
  \<open>image_recognition.py\<close> a failure of the contrast pass or of the date pass is recovered
  locally: the result is the one obtained had that pass read the empty string, so the
  other passes are run and counted.  A failure of the first pass, in either file, ends
  the extraction with the empty string.
\<close>

theorem extract_text_pass_failure:
  "(ocr img p = Inl e \<and> p \<noteq> Pass_sparse \<longrightarrow>
      extract_text img = extract_text (img\<lparr>ocr := (ocr img)(p := Inr [])\<rparr>)) \<and>
   (ocr img' Pass_sparse = Inl e' \<longrightarrow> extract_text img' = [] \<and> extract_text_new img' = [])"
proof (intro conjI impI)
  assume a: "ocr img p = Inl e \<and> p \<noteq> Pass_sparse"
  have blank: "\<not> nonblank []" by (simp add: nonblank_def strip_def)
  from a have "p = Pass_contrast \<or> p = Pass_dates" by (cases p) auto
  then show "extract_text img = extract_text (img\<lparr>ocr := (ocr img)(p := Inr [])\<rparr>)"
    using a
    by (auto simp: extract_text_def optional_pass_def blank Let_def
          split: option.splits sum.splits)
next
  assume "ocr img' Pass_sparse = Inl e'"
  then show "extract_text img' = []"
    by (simp add: extract_text_def split: option.splits)
next
  assume "ocr img' Pass_sparse = Inl e'"
  then show "extract_text_new img' = []"
    by (simp add: extract_text_new_def split: option.splits)
qed

theorem extract_text_pass_failure_witness:
  "ocr img_second_pass_fails Pass_contrast = Inl OCRError \<and> Pass_contrast \<noteq> Pass_sparse \<and>
   extract_text img_second_pass_fails =
     extract_text (img_second_pass_fails
       \<lparr>ocr := (ocr img_second_pass_fails)(Pass_contrast := Inr [])\<rparr>) \<and>
   ocr img_first_pass_fails Pass_sparse = Inl OCRError \<and>
   extract_text img_first_pass_fails = [] \<and> extract_text_new img_first_pass_fails = []"
proof -
  have h1: "ocr img_second_pass_fails Pass_contrast = Inl OCRError \<and> Pass_contrast \<noteq> Pass_sparse"
    by (simp add: img_second_pass_fails_def second_pass_fails_def)
  have h2: "ocr img_first_pass_fails Pass_sparse = Inl OCRError"
    by (simp add: img_first_pass_fails_def first_pass_fails_def)
  show ?thesis
    using h1 h2
      extract_text_pass_failure [of img_second_pass_fails Pass_contrast OCRError
        img_first_pass_fails OCRError]
    by simp
qed

lemma extract_double_space: "extract_text (img_reading (str ''a  b'')) = str ''a  b''"
  by (simp add: extract_text_def img_reading_def blank_after_def optional_pass_def Let_def)
     (simp add: nonblank_def strip_def clean_lines_def str_simps LF_def SP_def isspace_def)

text \<open>
  C8, as stated: every string returned by \<open>extract_text\<close> is normalized, with no whitespace
  at the ends and no two whitespace characters in a row.  This fails: only whole lines
  are trimmed, so the two spaces inside the line \<open>a  b\<close> reach the result.
\<close>

theorem extract_text_normalized_counterexample:
  "extract_text (img_reading (str ''a  b'')) = str ''a  b'' \<and>
   \<not> normalized (extract_text (img_reading (str ''a  b'')))"
  unfolding extract_double_space
  by (simp add: normalized_def str_simps isspace_def)

text \<open>
  C8, amended: in both files the string returned by \<open>extract_text\<close> has no whitespace at
  either end and holds no line feed; it may be empty.  Whitespace inside a line of OCR
  output is kept as it was read.
\<close>

theorem extract_text_trimmed:
  "strip (extract_text img) = extract_text img \<and> LF \<notin> set (extract_text img) \<and>
   strip (extract_text_new img) = extract_text_new img \<and> LF \<notin> set (extract_text_new img)"
proof -
  have a: "strip s = s \<and> LF \<notin> set s" if "s = [] \<or> (\<exists>t. s = clean_lines t)" for s
    using that clean_lines_trimmed clean_lines_no_LF trimmed_strip strip_Nil by auto
  show ?thesis
    using a [OF extract_text_cases [of img]] a [OF extract_text_new_cases [of img]] by simp
qed

section \<open>Fusion Engine: facts about the model\<close>

lemma visual_results_shape:
  assumes "r \<in> set (visual_results U categories ranked ex tp)"
  shows "\<exists>ip\<in>set ranked. r = visual_result U categories ip \<or>
           (ex \<noteq> [] \<and> tp = None \<and> r = (visual_result U categories ip)\<lparr>extracted_text := Some ex\<rparr>)"
proof (cases ranked)
  case Nil
  with assms show ?thesis by (simp add: visual_results_def)
next
  case (Cons ip rest)
  with assms have "r \<in> set (map (visual_result U categories) rest) \<or>
      r = visual_result U categories ip \<or>
      (ex \<noteq> [] \<and> tp = None \<and> r = (visual_result U categories ip)\<lparr>extracted_text := Some ex\<rparr>)"
    by (auto simp: visual_results_def split: if_splits)
  with Cons show ?thesis by auto
qed

lemma visual_results_facts:
  assumes "r \<in> set (visual_results U categories ranked ex tp)"
  shows "identified_by_text r = None" "0 \<le> class_id r" "confidence r \<in> snd ` set ranked"
    "ex = [] \<or> tp \<noteq> None \<Longrightarrow> extracted_text r = None"
proof -
  from visual_results_shape [OF assms] obtain ip where ip: "ip \<in> set ranked"
    and r: "r = visual_result U categories ip \<or>
           (ex \<noteq> [] \<and> tp = None \<and> r = (visual_result U categories ip)\<lparr>extracted_text := Some ex\<rparr>)"
    by blast
  from r show "identified_by_text r = None" by (auto simp: visual_result_def)
  from r show "0 \<le> class_id r" by (auto simp: visual_result_def)
  from r have "confidence r = snd ip" by (auto simp: visual_result_def)
  with ip show "confidence r \<in> snd ` set ranked" by simp
  assume "ex = [] \<or> tp \<noteq> None"
  with r show "extracted_text r = None" by (auto simp: visual_result_def)
qed

lemma text_channel_high: "c > 0.75 \<Longrightarrow> text_channel U c img = ([], None)"
  by (simp add: text_channel_def)

lemma text_channel_Some:
  assumes "text_channel U c img = (ex, Some p)"
  shows "c \<le> 0.75" "ex = extract_text img" "is_meaningful_text U ex"
    "identify_product_from_text U ex = Some p" "\<not> (c > 0.4 \<and> confidence_boost p < 1.2)"
  using assms
  by (auto simp: text_channel_def Let_def split: if_splits option.splits)

lemma text_channel_survivor:
  assumes "c \<le> 0.75" "is_meaningful_text U (extract_text img)"
    "identify_product_from_text U (extract_text img) = Some p"
    "\<not> (c > 0.4 \<and> confidence_boost p < 1.2)"
  shows "text_channel U c img = (extract_text img, Some p)"
  using assms by (auto simp: text_channel_def Let_def)


lemma scan_result:
  "fst (scan U low reg (b, s)) = Some p \<Longrightarrow> b = Some p \<or> p \<in> snd ` set reg"
proof (induction reg arbitrary: b s)
  case Nil
  then show ?case by simp
next
  case (Cons kp reg)
  obtain key q where kp: "kp = (key, q)" by (cases kp)
  show ?case
  proof (cases "contains low (lower U key) \<and> real (length key) * confidence_boost q > s")
    case True
    with Cons.prems kp have "fst (scan U low reg (Some q, real (length key) * confidence_boost q)) = Some p"
      by (simp add: Let_def)
    from Cons.IH [OF this] kp show ?thesis by auto
  next
    case False
    with Cons.prems kp have "fst (scan U low reg (b, s)) = Some p"
      by (auto simp: Let_def split: if_splits)
    from Cons.IH [OF this] show ?thesis by auto
  qed
qed

lemma registry_boosts: "list_all (\<lambda>kp. 1.2 \<le> confidence_boost (snd kp)) PRODUCT_TEXT_MAPPING"
  by (simp add: PRODUCT_TEXT_MAPPING_def entry_def)


lemma registry_match_boost:
  assumes "registry_match U PRODUCT_TEXT_MAPPING t = Some p"
  shows "1.2 \<le> confidence_boost p"
proof -
  from assms have "None = Some p \<or> p \<in> snd ` set PRODUCT_TEXT_MAPPING"
    unfolding registry_match_def by (rule scan_result)
  then obtain kp where "kp \<in> set PRODUCT_TEXT_MAPPING" "p = snd kp" by auto
  then show ?thesis using registry_boosts by (auto simp: list_all_iff)
qed

lemma identify_cases:
  assumes "identify_product_from_text U t = Some p"
  shows "(registry_match U PRODUCT_TEXT_MAPPING t = Some p \<and> 1.2 \<le> confidence_boost p) \<or>
         (registry_match U PRODUCT_TEXT_MAPPING t = None \<and> is_meaningful_text U t \<and>
          confidence_boost p = 0.85)"
proof (cases "registry_match U PRODUCT_TEXT_MAPPING t")
  case None
  with assms show ?thesis
    by (auto simp: identify_product_from_text_def Let_def split: if_splits)
next
  case (Some q)
  with assms have "q = p"
    by (auto simp: identify_product_from_text_def split: if_splits)
  with Some registry_match_boost show ?thesis by auto
qed

lemma split_on_absent: "d \<notin> set t \<Longrightarrow> split_on d t = [t]"
  by (induction t) auto

lemma extract_reading:
  assumes "LF \<notin> set t" "t \<noteq> []" "strip t = t"
  shows "extract_text (img_reading t) = t" "extract_text_new (img_reading t) = t"
proof -
  have nb: "nonblank t" "\<not> nonblank []" using assms by (simp_all add: nonblank_def strip_def)
  have cl: "clean_lines t = t"
    using assms nb by (simp add: clean_lines_def split_on_absent)
  show "extract_text (img_reading t) = t"
    by (simp add: extract_text_def img_reading_def blank_after_def optional_pass_def nb cl)
  show "extract_text_new (img_reading t) = t"
    by (simp add: extract_text_new_def img_reading_def blank_after_def cl)
qed

lemma reading_flour:
  "extract_text (img_reading (str ''Weizenmehl Typ 405'')) = str ''Weizenmehl Typ 405''"
  by (rule extract_reading) (simp_all add: str_simps LF_def strip_def isspace_def)

lemma reading_Milch:
  "extract_text (img_reading (str ''Milch'')) = str ''Milch''"
  "extract_text_new (img_reading (str ''Milch'')) = str ''Milch''"
  by (rule extract_reading; simp add: str_simps LF_def strip_def isspace_def)+

lemma reading_url:
  "extract_text (img_reading (str ''www.example.de'')) = str ''www.example.de''"
  by (rule extract_reading) (simp_all add: str_simps LF_def strip_def isspace_def)
lemmas latin1_sel = latin1_def latin1_isalpha_def latin1_isalnum_def latin1_isdecimal_def latin1_lower_char_def
lemmas letters = a_uml_def o_uml_def u_uml_def A_uml_def O_uml_def U_uml_def eszett_def LF_def SP_def euro_def
lemmas regex_defs = re_lit_def re_plus_def re_char_def re_done_def re_opt_def dot_def
  flour_pattern_def price_pattern_def isbn_pattern_def typ_pattern_def
lemmas filter_defs = is_meaningful_text_def special_patterns_def str_simps strip_def isspace_def
  kept_def word_char_def umlaut_def special_char_def split_def count_where_def Let_def
  common_german_words_def str_isalpha_def

lemma meaningful_url: "is_meaningful_text latin1 (str ''www.example.de'')"
  by (simp add: filter_defs regex_defs latin1_sel letters)

lemma not_meaningful_Type: "\<not> is_meaningful_text latin1 (str ''Weizenmehl Type 405'')"
  by (simp add: filter_defs regex_defs latin1_sel letters)

lemma flour_path:
  "re_search (flour_pattern latin1) (lower latin1 (str ''Weizenmehl Typ 405'')) \<noteq> None"
  by (simp add: str_simps regex_defs latin1_sel letters isspace_def)

lemma meaningful_flour: "is_meaningful_text latin1 (str ''Weizenmehl Typ 405'')"
  by (simp add: filter_defs regex_defs latin1_sel letters)

lemma not_meaningful_Milch: "\<not> is_meaningful_text U (str ''Milch'')"
  by (simp add: is_meaningful_text_def str_simps strip_def isspace_def)

lemma meaningful_nonblank: "is_meaningful_text U t \<Longrightarrow> t \<noteq> [] \<and> strip t \<noteq> []"
  by (auto simp: is_meaningful_text_def split: if_splits)

lemma match_flour: "registry_match latin1 PRODUCT_TEXT_MAPPING (str ''Weizenmehl Typ 405'') = Some (entry ''Weizenmehl'' ''Weizenmehl'' 1.5)"
  by (simp add: registry_match_def PRODUCT_TEXT_MAPPING_def str_simps latin1_sel entry_def Let_def a_uml_def eszett_def)
lemma match_url: "registry_match latin1 PRODUCT_TEXT_MAPPING (str ''www.example.de'') = None"
  by (simp add: registry_match_def PRODUCT_TEXT_MAPPING_def str_simps latin1_sel entry_def Let_def a_uml_def eszett_def)
lemma match_Milch: "registry_match latin1 PRODUCT_TEXT_MAPPING (str ''Milch'') = Some (entry ''Milch'' ''Frische Milch'' 1.2)"
  by (simp add: registry_match_def PRODUCT_TEXT_MAPPING_def str_simps latin1_sel entry_def Let_def a_uml_def eszett_def)
lemma match_new_abc: "registry_match latin1 PRODUCT_TEXT_MAPPING_new (str ''abc'') = None"
  by (simp add: registry_match_def PRODUCT_TEXT_MAPPING_new_def str_simps latin1_sel entry_def Let_def)
lemma meaningful_new_abc: "is_meaningful_text_new latin1 (str ''abc'')"
  by (simp add: is_meaningful_text_new_def str_simps strip_def isspace_def kept_new_def word_char_def
     latin1_sel split_def count_where_def Let_def)
lemma meaningful_new_noisy: "is_meaningful_text_new latin1 (str ''abc!!!'')"
  by (simp add: is_meaningful_text_new_def str_simps strip_def isspace_def kept_new_def word_char_def
     latin1_sel split_def count_where_def Let_def)
lemma noise_noisy: "noise_fraction latin1 (str ''abc!!!'') = 0.5"
  by (simp add: noise_fraction_def count_where_def special_char_def str_simps latin1_sel isspace_def)
lemma title_new_abc: "get_best_text_for_title_new latin1 (str ''abc'') = str ''Abc''"
  by (simp add: get_best_text_for_title_new_def title_clean_def collapse_ws_def str_simps strip_def isspace_def
    kept_def word_char_def umlaut_def latin1_sel split_def Let_def latin1_capitalize_def latin1_title_char_def
    a_uml_def o_uml_def u_uml_def A_uml_def O_uml_def U_uml_def eszett_def SP_def)

lemma predict_request_for:
  "predict U categories (request_for t c) =
     Inr (take 5 (fused_results U categories (ranked5 c) (text_channel U c (img_reading t))))"
  by (simp add: predict_def request_for_def ranked5_def)

lemma predict_new_request_for:
  "predict_new U categories (request_for t c) =
     Inr (take 5 (fused_results_new U categories (ranked5 c) (text_channel_new U (img_reading t))))"
  by (simp add: predict_new_def request_for_def)

lemma visual_results_plain:
  "ex = [] \<or> tp \<noteq> None \<Longrightarrow>
   visual_results U categories ranked ex tp = map (visual_result U categories) ranked"
  by (auto simp: visual_results_def split: list.splits)

lemma fused_Some:
  "fused_results U categories ranked (ex, Some p) =
     text_result p (0.95 * confidence_boost p) ex # map (visual_result U categories) ranked"
  "fused_results_new U categories ranked (ex, Some p) =
     text_result p 0.95 ex # map (visual_result U categories) ranked"
  by (simp_all add: fused_results_def fused_results_new_def visual_results_plain)

lemma identify_flour:
  "identify_product_from_text latin1 (str ''Weizenmehl Typ 405'') =
     Some (entry ''Weizenmehl'' ''Weizenmehl'' 1.5)"
  using meaningful_nonblank [OF meaningful_flour]
  by (simp add: identify_product_from_text_def match_flour)

lemma channel_flour:
  "text_channel latin1 0.3 (img_reading (str ''Weizenmehl Typ 405'')) =
     (str ''Weizenmehl Typ 405'', Some (entry ''Weizenmehl'' ''Weizenmehl'' 1.5))"
proof (rule text_channel_survivor [where img = "img_reading (str ''Weizenmehl Typ 405'')",
      unfolded reading_flour])
  show "(0.3::real) \<le> 0.75" by simp
  show "is_meaningful_text latin1 (str ''Weizenmehl Typ 405'')" by (rule meaningful_flour)
  show "identify_product_from_text latin1 (str ''Weizenmehl Typ 405'') =
      Some (entry ''Weizenmehl'' ''Weizenmehl'' 1.5)" by (rule identify_flour)
  show "\<not> ((0.4::real) < 0.3 \<and> confidence_boost (entry ''Weizenmehl'' ''Weizenmehl'' 1.5) < 1.2)"
    by simp
qed

lemma predict_flour:
  "predict latin1 labels (request_for (str ''Weizenmehl Typ 405'') 0.3) =
     Inr (text_result (entry ''Weizenmehl'' ''Weizenmehl'' 1.5) 1.425 (str ''Weizenmehl Typ 405'')
          # map (visual_result latin1 labels) (take 4 (ranked5 0.3)))"
  by (simp add: predict_request_for channel_flour fused_Some ranked5_def entry_def)

lemma identify_new_Milch:
  "identify_product_from_text_new latin1 (str ''Milch'') = Some (entry ''Milch'' ''Milch'' 0.7)"
  by (simp add: identify_product_from_text_new_def registry_match_def PRODUCT_TEXT_MAPPING_new_def
        str_simps latin1_sel entry_def Let_def strip_def isspace_def)

lemma predict_new_Milch:
  "predict_new latin1 labels (request_for (str ''Milch'') c) =
     Inr (text_result (entry ''Milch'' ''Milch'' 0.7) 0.95 (str ''Milch'')
          # map (visual_result latin1 labels) (take 4 (ranked5 c)))"
  by (simp add: predict_new_request_for text_channel_new_def reading_Milch identify_new_Milch
        fused_Some ranked5_def)

lemma predict_confident_Milch:
  "predict latin1 labels (request_for (str ''Milch'') 0.9) =
     Inr (map (visual_result latin1 labels) (ranked5 0.9))"
  by (simp add: predict_request_for text_channel_high fused_results_def visual_results_plain
        ranked5_def)

lemma channel_Milch:
  "text_channel U 0.3 (img_reading (str ''Milch'')) = (str ''Milch'', None)"
  by (simp add: text_channel_def reading_Milch not_meaningful_Milch)

lemma predict_Milch:
  "predict U labels (request_for (str ''Milch'') 0.3) =
     Inr ((visual_result U labels (281, 0.3))\<lparr>extracted_text := Some (str ''Milch'')\<rparr>
          # map (visual_result U labels) (tl (ranked5 0.3)))"
proof -
  have "str ''Milch'' \<noteq> []" by (simp add: str_simps)
  then show ?thesis
    by (simp add: predict_request_for channel_Milch fused_results_def visual_results_def
          ranked5_def)
qed

section \<open>Fusion Engine: the claims on gating and confidence\<close>

text \<open>
  C1, as stated, also for \<open>image_recognition_new.py\<close>: with a top visual confidence above
  0.75 the list holds no text-based entry and no entry carries \<open>extracted_text\<close>.  The
  legacy \<open>predict\<close> has no such gate: with top confidence 0.9 and the text \<open>Milch\<close> on
  the image, its first entry is text-based and carries the text.
\<close>

theorem predict_new_high_confidence_counterexample:
  "top5 (request_for (str ''Milch'') 0.9) = Inr (ranked5 0.9) \<and>
   snd (hd (ranked5 0.9)) > 0.75 \<and>
   predict_new latin1 labels (request_for (str ''Milch'') 0.9) =
     Inr (text_result (entry ''Milch'' ''Milch'' 0.7) 0.95 (str ''Milch'')
          # map (visual_result latin1 labels) (take 4 (ranked5 0.9))) \<and>
   text_based (text_result (entry ''Milch'' ''Milch'' 0.7) 0.95 (str ''Milch'')) \<and>
   extracted_text (text_result (entry ''Milch'' ''Milch'' 0.7) 0.95 (str ''Milch'')) =
     Some (str ''Milch'')"
proof -
  have "top5 (request_for (str ''Milch'') 0.9) = Inr (ranked5 0.9)"
    by (simp add: request_for_def)
  moreover have "snd (hd (ranked5 0.9)) > 0.75" by (simp add: ranked5_def)
  moreover have "text_based (text_result (entry ''Milch'' ''Milch'' 0.7) 0.95 (str ''Milch''))"
    by (simp add: text_based_def text_result_def)
  moreover have
    "extracted_text (text_result (entry ''Milch'' ''Milch'' 0.7) 0.95 (str ''Milch'')) =
       Some (str ''Milch'')"
    by (simp add: text_result_def)
  ultimately show ?thesis using predict_new_Milch [of "0.9"] by blast
qed

text \<open>
  C1, amended: in \<open>image_recognition.py\<close>, whenever \<open>predict\<close> succeeds on an image whose
  top visual confidence is strictly greater than 0.75, no entry of the returned list is
  text-based and no entry carries \<open>extracted_text\<close>.
\<close>

theorem predict_high_confidence:
  assumes "top5 req = Inr ((i, c) # rest)" and "c > 0.75"
    and "predict U categories req = Inr res" and "r \<in> set res"
  shows "\<not> text_based r \<and> extracted_text r = None"
proof -
  from assms(1,3) obtain img where
    res: "res = take 5 (fused_results U categories ((i, c) # rest) (text_channel U c img))"
    by (auto simp: predict_def split: sum.splits)
  with assms(2) have "res = take 5 (visual_results U categories ((i, c) # rest) [] None)"
    by (simp add: text_channel_high fused_results_def)
  with assms(4) have "r \<in> set (visual_results U categories ((i, c) # rest) [] None)"
    by (auto dest: in_set_takeD)
  then show ?thesis using visual_results_facts(1,4) by (auto simp: text_based_def)
qed

theorem predict_high_confidence_witness:
  "top5 (request_for (str ''Milch'') 0.9) = Inr ((281, 0.9) # tl (ranked5 0.9)) \<and>
   (0.9::real) > 0.75 \<and>
   predict latin1 labels (request_for (str ''Milch'') 0.9) =
     Inr (map (visual_result latin1 labels) (ranked5 0.9)) \<and>
   visual_result latin1 labels (281, 0.9) \<in> set (map (visual_result latin1 labels) (ranked5 0.9)) \<and>
   \<not> text_based (visual_result latin1 labels (281, 0.9)) \<and>
   extracted_text (visual_result latin1 labels (281, 0.9)) = None"
proof -
  have h1: "top5 (request_for (str ''Milch'') 0.9) = Inr ((281, 0.9) # tl (ranked5 0.9))"
    by (simp add: request_for_def ranked5_def)
  have h2: "(0.9::real) > 0.75" by simp
  have h4: "visual_result latin1 labels (281, 0.9)
      \<in> set (map (visual_result latin1 labels) (ranked5 0.9))"
    by (simp add: ranked5_def)
  from predict_high_confidence [OF h1 h2 predict_confident_Milch h4] h1 h2 h4
    predict_confident_Milch
  show ?thesis by simp
qed

text \<open>
  C2, as stated, also for \<open>image_recognition_new.py\<close>: the confidence of the text-based
  entry is 0.95 times the product's \<open>confidence_boost\<close>.  The legacy \<open>predict\<close> gives every
  text-based entry the confidence 0.95: for the text \<open>Milch\<close>, whose registry entry has the
  boost 0.7, the entry's confidence is 0.95 and not 0.665.
\<close>

theorem predict_new_confidence_counterexample:
  "identify_product_from_text_new latin1 (extract_text_new (img_reading (str ''Milch''))) =
     Some (entry ''Milch'' ''Milch'' 0.7) \<and>
   predict_new latin1 labels (request_for (str ''Milch'') 0.3) =
     Inr (text_result (entry ''Milch'' ''Milch'' 0.7) 0.95 (str ''Milch'')
          # map (visual_result latin1 labels) (take 4 (ranked5 0.3))) \<and>
   confidence (text_result (entry ''Milch'' ''Milch'' 0.7) 0.95 (str ''Milch'')) = 0.95 \<and>
   0.95 * confidence_boost (entry ''Milch'' ''Milch'' 0.7) = 0.665 \<and>
   confidence (text_result (entry ''Milch'' ''Milch'' 0.7) 0.95 (str ''Milch'')) \<noteq>
     0.95 * confidence_boost (entry ''Milch'' ''Milch'' 0.7)"
  by (simp add: reading_Milch identify_new_Milch predict_new_Milch text_result_def entry_def)

text \<open>
  C2, amended: in \<open>image_recognition.py\<close>, whenever an identified product survives the
  gates of \<open>predict\<close> (top confidence at most 0.75, meaningful text, and not both a top
  confidence above 0.4 and a boost below 1.2), \<open>predict\<close> succeeds, its first entry is the
  text-based entry of that product, and the confidence of every text-based entry equals
  0.95 multiplied by the product's \<open>confidence_boost\<close>.
\<close>

theorem predict_text_confidence:
  assumes "decoded req = Inr img" and "top5 req = Inr ((i, c) # rest)" and "c \<le> 0.75"
    and "is_meaningful_text U (extract_text img)"
    and "identify_product_from_text U (extract_text img) = Some p"
    and "\<not> (c > 0.4 \<and> confidence_boost p < 1.2)"
  shows "\<exists>res. predict U categories req = Inr res \<and> res \<noteq> [] \<and>
           hd res = text_result p (0.95 * confidence_boost p) (extract_text img) \<and>
           confidence (hd res) = 0.95 * confidence_boost p \<and>
           (\<forall>r\<in>set res. text_based r \<longrightarrow> confidence r = 0.95 * confidence_boost p)"
proof -
  let ?t = "text_result p (0.95 * confidence_boost p) (extract_text img)"
  let ?vs = "map (visual_result U categories) ((i, c) # rest)"
  have tc: "text_channel U c img = (extract_text img, Some p)"
    using assms(3-6) by (rule text_channel_survivor)
  have res: "predict U categories req = Inr (take 5 (?t # ?vs))"
    using assms(1,2) by (simp add: predict_def tc fused_Some)
  have "confidence r = 0.95 * confidence_boost p"
    if "r \<in> set (take 5 (?t # ?vs))" "text_based r" for r
  proof -
    from that(1) have "r = ?t \<or> r \<in> set ?vs" by (auto dest: in_set_takeD)
    moreover have "\<not> text_based v" if "v \<in> set ?vs" for v
      using that by (auto simp: text_based_def visual_result_def)
    ultimately have "r = ?t" using that(2) by blast
    then show ?thesis by (simp add: text_result_def)
  qed
  with res show ?thesis by (auto simp: text_result_def)
qed

theorem predict_text_confidence_witness:
  "decoded (request_for (str ''Weizenmehl Typ 405'') 0.3) =
     Inr (img_reading (str ''Weizenmehl Typ 405'')) \<and>
   top5 (request_for (str ''Weizenmehl Typ 405'') 0.3) = Inr ((281, 0.3) # tl (ranked5 0.3)) \<and>
   (0.3::real) \<le> 0.75 \<and>
   is_meaningful_text latin1 (extract_text (img_reading (str ''Weizenmehl Typ 405''))) \<and>
   identify_product_from_text latin1 (extract_text (img_reading (str ''Weizenmehl Typ 405''))) =
     Some (entry ''Weizenmehl'' ''Weizenmehl'' 1.5) \<and>
   (\<exists>res. predict latin1 labels (request_for (str ''Weizenmehl Typ 405'') 0.3) = Inr res \<and>
      res \<noteq> [] \<and> confidence (hd res) = 1.425)"
proof -
  let ?T = "str ''Weizenmehl Typ 405''"
  let ?p = "entry ''Weizenmehl'' ''Weizenmehl'' 1.5"
  have h1: "decoded (request_for ?T 0.3) = Inr (img_reading ?T)"
    by (simp add: request_for_def)
  have h2: "top5 (request_for ?T 0.3) = Inr ((281, 0.3) # tl (ranked5 0.3))"
    by (simp add: request_for_def ranked5_def)
  have h3: "(0.3::real) \<le> 0.75" by simp
  have h4: "is_meaningful_text latin1 (extract_text (img_reading ?T))"
    by (simp add: reading_flour meaningful_flour)
  have h5: "identify_product_from_text latin1 (extract_text (img_reading ?T)) = Some ?p"
    by (simp add: reading_flour identify_flour)
  have h6: "\<not> ((0.3::real) > 0.4 \<and> confidence_boost ?p < 1.2)" by simp
  have b: "0.95 * confidence_boost ?p = 1.425" by (simp add: entry_def)
  from predict_text_confidence [OF h1 h2 h3 h4 h5 h6, of labels]
  have "\<exists>res. predict latin1 labels (request_for ?T 0.3) = Inr res \<and>
      res \<noteq> [] \<and> confidence (hd res) = 1.425"
    unfolding b by blast
  with h1 h2 h3 h4 h5 show ?thesis by blast
qed

section \<open>Product Identifier and Meaningfulness Filter: the claims\<close>

text \<open>
  C3, as stated, for the registry of each file: a product synthesized from meaningful
  text with no registry match has a \<open>confidence_boost\<close> strictly below that of every
  registry entry.  In \<open>image_recognition_new.py\<close> the synthesized boost is 0.9, and the
  registry entry \<open>Weizenmehl\<close> has the boost 0.8.
\<close>

theorem synthesized_boost_new_counterexample:
  "registry_match latin1 PRODUCT_TEXT_MAPPING_new (str ''abc'') = None \<and>
   is_meaningful_text_new latin1 (str ''abc'') \<and>
   identify_product_from_text_new latin1 (str ''abc'') =
     Some \<lparr> name = str ''Abc'', description = str ''Abc'', confidence_boost = 0.9 \<rparr> \<and>
   (str ''Weizenmehl'', entry ''Weizenmehl'' ''Weizenmehl'' 0.8) \<in> set PRODUCT_TEXT_MAPPING_new \<and>
   \<not> (0.9 < confidence_boost (entry ''Weizenmehl'' ''Weizenmehl'' 0.8))"
proof -
  have "str ''abc'' \<noteq> [] \<and> strip (str ''abc'') \<noteq> []"
    by (simp add: str_simps strip_def isspace_def)
  then have "identify_product_from_text_new latin1 (str ''abc'') =
     Some \<lparr> name = str ''Abc'', description = str ''Abc'', confidence_boost = 0.9 \<rparr>"
    by (simp add: identify_product_from_text_new_def match_new_abc meaningful_new_abc
          title_new_abc Let_def)
  moreover have
    "(str ''Weizenmehl'', entry ''Weizenmehl'' ''Weizenmehl'' 0.8) \<in> set PRODUCT_TEXT_MAPPING_new"
    by (simp add: PRODUCT_TEXT_MAPPING_new_def)
  moreover have "\<not> (0.9 < confidence_boost (entry ''Weizenmehl'' ''Weizenmehl'' 0.8))"
    by (simp add: entry_def)
  ultimately show ?thesis using match_new_abc meaningful_new_abc by blast
qed

text \<open>
  C3, amended: in \<open>identify_product_from_text\<close> of \<open>image_recognition.py\<close>, for every text
  with no registry keyword match for which \<open>is_meaningful_text\<close> is true, a product is
  synthesized whose name is the title taken from the text and whose \<open>confidence_boost\<close>,
  0.85, is strictly below the \<open>confidence_boost\<close> of every entry of that file's registry.
\<close>

theorem synthesized_boost_below_registry:
  assumes "registry_match U PRODUCT_TEXT_MAPPING t = None" and "is_meaningful_text U t"
  shows "\<exists>p. identify_product_from_text U t = Some p \<and>
           name p = get_best_text_for_title U t \<and> confidence_boost p = 0.85 \<and>
           (\<forall>kp\<in>set PRODUCT_TEXT_MAPPING. confidence_boost p < confidence_boost (snd kp))"
proof -
  let ?p = "\<lparr> name = get_best_text_for_title U t, description = get_best_text_for_title U t,
              confidence_boost = 0.85 \<rparr>"
  have "identify_product_from_text U t = Some ?p"
    using assms meaningful_nonblank [OF assms(2)]
    by (simp add: identify_product_from_text_def Let_def)
  moreover have "(0.85::real) < confidence_boost (snd kp)" if "kp \<in> set PRODUCT_TEXT_MAPPING" for kp
    using registry_boosts that by (fastforce simp: list_all_iff)
  ultimately show ?thesis by simp
qed

theorem synthesized_boost_below_registry_witness:
  "registry_match latin1 PRODUCT_TEXT_MAPPING (str ''www.example.de'') = None \<and>
   is_meaningful_text latin1 (str ''www.example.de'') \<and>
   (\<exists>p. identify_product_from_text latin1 (str ''www.example.de'') = Some p \<and>
      confidence_boost p = 0.85 \<and>
      confidence_boost p < confidence_boost (entry ''Mehl'' ''Weizenmehl'' 1.2))"
proof -
  have "(str ''Mehl'', entry ''Mehl'' ''Weizenmehl'' 1.2) \<in> set PRODUCT_TEXT_MAPPING"
    by (simp add: PRODUCT_TEXT_MAPPING_def)
  with synthesized_boost_below_registry [OF match_url meaningful_url]
  have "\<exists>p. identify_product_from_text latin1 (str ''www.example.de'') = Some p \<and>
      confidence_boost p = 0.85 \<and>
      confidence_boost p < confidence_boost (entry ''Mehl'' ''Weizenmehl'' 1.2)"
    by fastforce
  with match_url meaningful_url show ?thesis by blast
qed

text \<open>
  C4, as stated: \<open>is_meaningful_text\<close> is false on \<open>ab\<close> and true on
  \<open>Weizenmehl Type 405\<close> in both files.  The strict filter of \<open>image_recognition.py\<close>
  rejects \<open>Weizenmehl Type 405\<close>: no word of it is counted as known, and the flour pattern
  asks for \<open>typ\<close> followed at once by optional whitespace and digits, which \<open>Type 405\<close>
  is not.
\<close>

theorem strict_filter_Type_counterexample:
  "\<not> is_meaningful_text latin1 (str ''Weizenmehl Type 405'')"
  by (rule not_meaningful_Type)

text \<open>
  C4, amended: \<open>is_meaningful_text\<close> is false on \<open>ab\<close> in both files.  On
  \<open>Weizenmehl Type 405\<close> the legacy filter of \<open>image_recognition_new.py\<close> is true, by its
  word-length and letter-ratio test.  The strict filter of \<open>image_recognition.py\<close> is true
  on \<open>Weizenmehl Typ 405\<close>, through its flour pattern.
\<close>

theorem filter_examples:
  "\<not> is_meaningful_text U (str ''ab'') \<and>
   \<not> is_meaningful_text_new U (str ''ab'') \<and>
   is_meaningful_text_new latin1 (str ''Weizenmehl Type 405'') \<and>
   is_meaningful_text latin1 (str ''Weizenmehl Typ 405'') \<and>
   re_search (flour_pattern latin1) (lower latin1 (str ''Weizenmehl Typ 405'')) \<noteq> None"
proof -
  have "\<not> is_meaningful_text U (str ''ab'')"
    by (simp add: is_meaningful_text_def str_simps strip_def isspace_def)
  moreover have "\<not> is_meaningful_text_new U (str ''ab'')"
    by (simp add: is_meaningful_text_new_def str_simps strip_def isspace_def)
  moreover have "is_meaningful_text_new latin1 (str ''Weizenmehl Type 405'')"
    by (simp add: is_meaningful_text_new_def str_simps strip_def isspace_def kept_new_def
          word_char_def latin1_sel split_def count_where_def Let_def)
  ultimately show ?thesis using meaningful_flour flour_path by blast
qed

text \<open>
  C5, as stated: both filters reject every text in which the fraction of characters that
  are neither alphanumeric nor whitespace exceeds 30 percent.  The legacy filter of
  \<open>image_recognition_new.py\<close> has no such test: it accepts \<open>abc!!!\<close>, half of which is
  such characters.
\<close>

theorem legacy_filter_noise_counterexample:
  "noise_fraction latin1 (str ''abc!!!'') = 0.5 \<and>
   noise_fraction latin1 (str ''abc!!!'') > 0.3 \<and>
   is_meaningful_text_new latin1 (str ''abc!!!'')"
  by (simp add: noise_noisy meaningful_new_noisy)

text \<open>
  C5, amended: the strict filter of \<open>image_recognition.py\<close> rejects every text in which the
  fraction of characters that are neither alphanumeric nor whitespace exceeds 30 percent.
\<close>

theorem strict_filter_rejects_noise:
  assumes "noise_fraction U t > 0.3"
  shows "\<not> is_meaningful_text U t"
proof -
  define s where "s = count_where (special_char U) t"
  define n where "n = length t"
  from assms have frac: "0.3 < real s / real n"
    by (simp only: noise_fraction_def s_def n_def)
  have pos: "0 < real n"
  proof (rule ccontr)
    assume "\<not> 0 < real n"
    then have "real s / real n = 0" by simp
    with frac show False by simp
  qed
  from frac pos have "0.3 * real n < real s" by (simp only: pos_less_divide_eq)
  then have "real (3 * n) < real (10 * s)" by simp
  then have "3 * n < 10 * s" by (simp only: of_nat_less_iff)
  then have "3 * n + 1 \<le> 10 * s" by simp
  then have "real (3 * n + 1) \<le> real (10 * s)" by (simp only: of_nat_le_iff)
  then have "0.3 * (real n + 0.001) < real s" by simp
  moreover have "0 < real n + 0.001" using pos by simp
  ultimately have "0.3 < real s / (real n + 0.001)" by (simp only: pos_less_divide_eq)
  then have c: "0.3 < real (count_where (special_char U) t) / (real (length t) + 0.001)"
    by (simp only: s_def n_def)
  show ?thesis
    unfolding is_meaningful_text_def Let_def
    by (simp only: c if_True if_cancel not_False_eq_True)
qed

theorem strict_filter_rejects_noise_witness:
  "noise_fraction latin1 (str ''abc!!!'') > 0.3 \<and> \<not> is_meaningful_text latin1 (str ''abc!!!'')"
proof -
  have h: "noise_fraction latin1 (str ''abc!!!'') > 0.3" by (simp add: noise_noisy)
  from strict_filter_rejects_noise [OF h] h show ?thesis by simp
qed

section \<open>Fusion Engine: the claims on the order and the rank of the text entry\<close>

lemma visual_results_only: "visual_only (visual_results U categories ranked ex tp)"
  unfolding visual_only_def list_all_iff
proof
  fix r assume "r \<in> set (visual_results U categories ranked ex tp)"
  then have "identified_by_text r = None" "0 \<le> class_id r"
    by (rule visual_results_facts)+
  then show "\<not> text_based r \<and> class_id r \<noteq> - 1" by (simp add: text_based_def)
qed

lemma visual_only_mem: "visual_only vs \<Longrightarrow> r \<in> set vs \<Longrightarrow> \<not> text_based r \<and> class_id r \<noteq> - 1"
  by (simp add: visual_only_def list_all_iff)

lemma visual_only_cut:
  assumes "visual_only vs"
  shows "text_entry_first (take 5 vs)" "kept_by_cut vs"
proof -
  show "text_entry_first (take 5 vs)"
    unfolding text_entry_first_def
  proof (intro allI impI)
    fix i assume i: "i < length (take 5 vs)"
      and m: "text_based (take 5 vs ! i) \<or> class_id (take 5 vs ! i) = - 1"
    from i have "take 5 vs ! i \<in> set (take 5 vs)" by (rule nth_mem)
    then have "take 5 vs ! i \<in> set vs" by (rule in_set_takeD)
    with assms m visual_only_mem have False by blast
    then show "i = 0 \<and> class_id (take 5 vs ! i) = - 1 \<and>
        identified_by_text (take 5 vs ! i) = Some True" ..
  qed
  show "kept_by_cut vs"
    unfolding kept_by_cut_def
  proof (intro conjI ballI impI)
    fix r assume "r \<in> set (drop 5 vs)"
    then have "r \<in> set vs" by (rule in_set_dropD)
    with assms visual_only_mem show "\<not> text_based r" by blast
  next
    fix r assume "r \<in> set vs" "text_based r"
    with assms visual_only_mem have False by blast
    then show "r \<in> set (take 5 vs)" ..
  qed
qed

lemma text_first_cut:
  assumes "visual_only vs" and t: "class_id t = - 1" "identified_by_text t = Some True"
  shows "text_entry_first (take 5 (t # vs))" "kept_by_cut (t # vs)"
proof -
  show "text_entry_first (take 5 (t # vs))"
    unfolding text_entry_first_def
  proof (intro allI impI)
    fix i assume i: "i < length (take 5 (t # vs))"
      and m: "text_based (take 5 (t # vs) ! i) \<or> class_id (take 5 (t # vs) ! i) = - 1"
    show "i = 0 \<and> class_id (take 5 (t # vs) ! i) = - 1 \<and>
        identified_by_text (take 5 (t # vs) ! i) = Some True"
    proof (cases i)
      case 0
      then show ?thesis using t by simp
    next
      case (Suc j)
      with i have "take 5 (t # vs) ! i = vs ! j" "j < length vs" by simp_all
      then have "take 5 (t # vs) ! i \<in> set vs" by simp
      with assms(1) m visual_only_mem have False by blast
      then show ?thesis ..
    qed
  qed
  show "kept_by_cut (t # vs)"
    unfolding kept_by_cut_def
  proof (intro conjI ballI impI)
    fix r assume "r \<in> set (drop 5 (t # vs))"
    then have "r \<in> set (drop 4 vs)" by simp
    then have "r \<in> set vs" by (rule in_set_dropD)
    with assms(1) visual_only_mem show "\<not> text_based r" by blast
  next
    fix r assume "r \<in> set (t # vs)" "text_based r"
    with assms(1) visual_only_mem have "r = t" by auto
    then show "r \<in> set (take 5 (t # vs))" by simp
  qed
qed

lemma fused_cut:
  "text_entry_first (take 5 (fused_results U categories ranked tc))"
  "kept_by_cut (fused_results U categories ranked tc)"
proof -
  let ?vs = "visual_results U categories ranked (fst tc) (snd tc)"
  have v: "visual_only ?vs" by (rule visual_results_only)
  show "text_entry_first (take 5 (fused_results U categories ranked tc))"
  proof (cases "snd tc")
    case None
    then have "fused_results U categories ranked tc = ?vs" by (simp add: fused_results_def)
    then show ?thesis using visual_only_cut(1) [OF v] by simp
  next
    case (Some p)
    let ?t = "text_result p (0.95 * confidence_boost p) (fst tc)"
    have "fused_results U categories ranked tc = ?t # ?vs"
      using Some by (simp add: fused_results_def)
    moreover have "class_id ?t = - 1" "identified_by_text ?t = Some True"
      by (simp_all add: text_result_def)
    ultimately show ?thesis using text_first_cut(1) [OF v] by simp
  qed
  show "kept_by_cut (fused_results U categories ranked tc)"
  proof (cases "snd tc")
    case None
    then have "fused_results U categories ranked tc = ?vs" by (simp add: fused_results_def)
    then show ?thesis using visual_only_cut(2) [OF v] by simp
  next
    case (Some p)
    let ?t = "text_result p (0.95 * confidence_boost p) (fst tc)"
    have "fused_results U categories ranked tc = ?t # ?vs"
      using Some by (simp add: fused_results_def)
    moreover have "class_id ?t = - 1" "identified_by_text ?t = Some True"
      by (simp_all add: text_result_def)
    ultimately show ?thesis using text_first_cut(2) [OF v] by simp
  qed
qed

lemma fused_new_cut:
  "text_entry_first (take 5 (fused_results_new U categories ranked tc))"
  "kept_by_cut (fused_results_new U categories ranked tc)"
proof -
  let ?vs = "visual_results U categories ranked (fst tc) (snd tc)"
  have v: "visual_only ?vs" by (rule visual_results_only)
  show "text_entry_first (take 5 (fused_results_new U categories ranked tc))"
  proof (cases "snd tc")
    case None
    then have "fused_results_new U categories ranked tc = ?vs"
      by (simp add: fused_results_new_def)
    then show ?thesis using visual_only_cut(1) [OF v] by simp
  next
    case (Some p)
    let ?t = "text_result p 0.95 (fst tc)"
    have "fused_results_new U categories ranked tc = ?t # ?vs"
      using Some by (simp add: fused_results_new_def)
    moreover have "class_id ?t = - 1" "identified_by_text ?t = Some True"
      by (simp_all add: text_result_def)
    ultimately show ?thesis using text_first_cut(1) [OF v] by simp
  qed
  show "kept_by_cut (fused_results_new U categories ranked tc)"
  proof (cases "snd tc")
    case None
    then have "fused_results_new U categories ranked tc = ?vs"
      by (simp add: fused_results_new_def)
    then show ?thesis using visual_only_cut(2) [OF v] by simp
  next
    case (Some p)
    let ?t = "text_result p 0.95 (fst tc)"
    have "fused_results_new U categories ranked tc = ?t # ?vs"
      using Some by (simp add: fused_results_new_def)
    moreover have "class_id ?t = - 1" "identified_by_text ?t = Some True"
      by (simp_all add: text_result_def)
    ultimately show ?thesis using text_first_cut(2) [OF v] by simp
  qed
qed

lemma predict_is_cut:
  assumes "predict U categories req = Inr res"
  shows "\<exists>ranked tc. res = take 5 (fused_results U categories ranked tc)"
proof -
  from assms obtain img ranked c where
    "res = take 5 (fused_results U categories ranked (text_channel U c img))"
    by (auto simp: predict_def split: sum.splits list.splits)
  then show ?thesis by blast
qed

lemma predict_new_is_cut:
  assumes "predict_new U categories req = Inr res"
  shows "\<exists>ranked tc. res = take 5 (fused_results_new U categories ranked tc)"
proof -
  from assms obtain img ranked where
    "res = take 5 (fused_results_new U categories ranked (text_channel_new U img))"
    by (auto simp: predict_new_def Let_def split: sum.splits)
  then show ?thesis by blast
qed

text \<open>
  C6: in every list returned by \<open>predict\<close>, of either file, an entry that is text-based
  (or has the class id \<open>-1\<close>) is at index 0, has the class id \<open>-1\<close> and has
  \<open>identified_by_text\<close> true; the list has at most five entries; it is the list of
  results cut to five, and every entry that the cut drops is a visual one, so a
  text-based entry of the results is in the returned list.
\<close>

theorem text_entry_first_and_kept:
  "(decoded req = Inr img \<and> top5 req = Inr ((i, c) # rest) \<longrightarrow>
      predict U categories req =
        Inr (take 5 (fused_results U categories ((i, c) # rest) (text_channel U c img))) \<and>
      kept_by_cut (fused_results U categories ((i, c) # rest) (text_channel U c img))) \<and>
   (decoded req = Inr img \<and> top5 req = Inr ranked \<longrightarrow>
      predict_new U categories req =
        Inr (take 5 (fused_results_new U categories ranked (text_channel_new U img))) \<and>
      kept_by_cut (fused_results_new U categories ranked (text_channel_new U img))) \<and>
   (predict U categories req = Inr res \<or> predict_new U categories req = Inr res \<longrightarrow>
      text_entry_first res \<and> length res \<le> 5)"
proof (intro conjI impI)
  assume "decoded req = Inr img \<and> top5 req = Inr ((i, c) # rest)"
  then show "predict U categories req =
      Inr (take 5 (fused_results U categories ((i, c) # rest) (text_channel U c img)))"
    by (simp add: predict_def)
next
  show "kept_by_cut (fused_results U categories ((i, c) # rest) (text_channel U c img))"
    by (rule fused_cut(2))
next
  assume "decoded req = Inr img \<and> top5 req = Inr ranked"
  then show "predict_new U categories req =
      Inr (take 5 (fused_results_new U categories ranked (text_channel_new U img)))"
    by (simp add: predict_new_def)
next
  show "kept_by_cut (fused_results_new U categories ranked (text_channel_new U img))"
    by (rule fused_new_cut(2))
next
  assume a: "predict U categories req = Inr res \<or> predict_new U categories req = Inr res"
  then show "text_entry_first res"
    using predict_is_cut predict_new_is_cut fused_cut(1) fused_new_cut(1) by metis
  from a show "length res \<le> 5"
    using predict_is_cut predict_new_is_cut by (metis length_take min.cobounded2)
qed

theorem text_entry_first_and_kept_witness:
  "decoded (request_for (str ''Weizenmehl Typ 405'') 0.3) =
     Inr (img_reading (str ''Weizenmehl Typ 405'')) \<and>
   top5 (request_for (str ''Weizenmehl Typ 405'') 0.3) = Inr ((281, 0.3) # tl (ranked5 0.3)) \<and>
   predict latin1 labels (request_for (str ''Weizenmehl Typ 405'') 0.3) =
     Inr (text_result (entry ''Weizenmehl'' ''Weizenmehl'' 1.5) 1.425 (str ''Weizenmehl Typ 405'')
          # map (visual_result latin1 labels) (take 4 (ranked5 0.3))) \<and>
   length (fused_results latin1 labels ((281, 0.3) # tl (ranked5 0.3))
     (text_channel latin1 0.3 (img_reading (str ''Weizenmehl Typ 405'')))) = 6 \<and>
   kept_by_cut (fused_results latin1 labels ((281, 0.3) # tl (ranked5 0.3))
     (text_channel latin1 0.3 (img_reading (str ''Weizenmehl Typ 405'')))) \<and>
   kept_by_cut (fused_results_new latin1 labels ((281, 0.3) # tl (ranked5 0.3))
     (text_channel_new latin1 (img_reading (str ''Weizenmehl Typ 405'')))) \<and>
   text_entry_first
     (text_result (entry ''Weizenmehl'' ''Weizenmehl'' 1.5) 1.425 (str ''Weizenmehl Typ 405'')
      # map (visual_result latin1 labels) (take 4 (ranked5 0.3))) \<and>
   length (text_result (entry ''Weizenmehl'' ''Weizenmehl'' 1.5) 1.425 (str ''Weizenmehl Typ 405'')
      # map (visual_result latin1 labels) (take 4 (ranked5 0.3))) \<le> 5"
proof -
  let ?T = "str ''Weizenmehl Typ 405''"
  let ?R = "request_for ?T 0.3"
  let ?res = "text_result (entry ''Weizenmehl'' ''Weizenmehl'' 1.5) 1.425 ?T
      # map (visual_result latin1 labels) (take 4 (ranked5 0.3))"
  have h1: "decoded ?R = Inr (img_reading ?T) \<and> top5 ?R = Inr ((281, 0.3) # tl (ranked5 0.3))"
    by (simp add: request_for_def ranked5_def)
  have h2: "predict latin1 labels ?R = Inr ?res \<or> predict_new latin1 labels ?R = Inr ?res"
    using predict_flour by simp
  have six: "length (fused_results latin1 labels ((281, 0.3) # tl (ranked5 0.3))
     (text_channel latin1 0.3 (img_reading ?T))) = 6"
    by (simp add: channel_flour fused_Some ranked5_def)
  note inst = text_entry_first_and_kept [where req = ?R and img = "img_reading ?T" and i = 281
      and c = "0.3" and rest = "tl (ranked5 0.3)" and ranked = "(281, 0.3) # tl (ranked5 0.3)"
      and U = latin1 and categories = labels and res = ?res]
  from inst h1 h2 six predict_flour show ?thesis by blast
qed

lemma sorted_desc_head:
  "sorted_wrt (\<ge>) (x # xs) \<Longrightarrow> y \<in> set (x # xs) \<Longrightarrow> (y::real) \<le> x"
  by auto

text \<open>
  C9: in \<open>image_recognition.py\<close>, when the classifier's confidences are at most 1 and in
  descending order, the confidence of a text-based entry that \<open>predict\<close> emits is
  strictly above the confidence of every visual entry of the same list.  The text-based
  entry either comes from a registry match, with confidence at least 1.14, or from a
  synthesized product, with confidence 0.8075, and then the top visual confidence is at
  most 0.4.
\<close>

theorem text_entry_outranks_visual:
  assumes "predict U categories req = Inr res" and "top5 req = Inr ranked"
    and "sorted_wrt (\<ge>) (map snd ranked)" and "\<forall>ip\<in>set ranked. snd ip \<le> 1"
    and "t \<in> set res" and "text_based t" and "v \<in> set res" and "\<not> text_based v"
  shows "confidence v < confidence t \<and>
         (1.14 \<le> confidence t \<or> (confidence t = 0.8075 \<and> snd (hd ranked) \<le> 0.4))"
proof -
  from assms(1,2) obtain img i c rest where img: "decoded req = Inr img"
    and ranked: "ranked = (i, c) # rest"
    and res: "res = take 5 (fused_results U categories ranked (text_channel U c img))"
    by (auto simp: predict_def split: sum.splits list.splits)
  obtain ex tp where tc: "text_channel U c img = (ex, tp)" by (cases "text_channel U c img")
  let ?vs = "visual_results U categories ranked ex tp"
  have vis: "visual_only ?vs" by (rule visual_results_only)
  have tp: "tp \<noteq> None"
  proof
    assume "tp = None"
    then have "res = take 5 ?vs" using res tc by (simp add: fused_results_def)
    with assms(5) have "t \<in> set ?vs" by (auto dest: in_set_takeD)
    with vis assms(6) visual_only_mem show False by blast
  qed
  then obtain p where p: "tp = Some p" by blast
  let ?t = "text_result p (0.95 * confidence_boost p) ex"
  have full: "res = take 5 (?t # ?vs)" using res tc p by (simp add: fused_results_def)
  have tb: "text_based ?t" by (simp add: text_based_def text_result_def)
  from full assms(5) have "t = ?t \<or> t \<in> set ?vs" by (auto dest: in_set_takeD)
  with vis assms(6) visual_only_mem have t: "t = ?t" by blast
  from full assms(7) have "v = ?t \<or> v \<in> set ?vs" by (auto dest: in_set_takeD)
  with tb assms(8) have v: "v \<in> set ?vs" by blast
  then have "confidence v \<in> snd ` set ranked" by (rule visual_results_facts(3))
  then have cv: "confidence v \<in> set (map snd ranked)" by simp
  with assms(4) have le1: "confidence v \<le> 1" by auto
  from cv assms(3) ranked have lec: "confidence v \<le> c"
    using sorted_desc_head [of c "map snd rest" "confidence v"] by simp
  have ct: "confidence t = 0.95 * confidence_boost p" using t by (simp add: text_result_def)
  from tc p have gate: "\<not> (c > 0.4 \<and> confidence_boost p < 1.2)"
    and ident: "identify_product_from_text U ex = Some p"
    using text_channel_Some [of U c img ex p] by simp_all
  from identify_cases [OF ident]
  have "1.2 \<le> confidence_boost p \<or> confidence_boost p = 0.85" by blast
  then show ?thesis
  proof
    assume "1.2 \<le> confidence_boost p"
    then have "1.14 \<le> confidence t" using ct by simp
    with le1 show ?thesis by simp
  next
    assume b: "confidence_boost p = 0.85"
    with gate have "c \<le> 0.4" by simp
    moreover have "confidence t = 0.8075" using ct b by simp
    ultimately show ?thesis using lec ranked by simp
  qed
qed

lemma identify_url:
  "identify_product_from_text latin1 (str ''www.example.de'') =
     Some \<lparr> name = get_best_text_for_title latin1 (str ''www.example.de''),
            description = get_best_text_for_title latin1 (str ''www.example.de''),
            confidence_boost = 0.85 \<rparr>"
  using meaningful_nonblank [OF meaningful_url]
  by (simp add: identify_product_from_text_def match_url meaningful_url Let_def)

lemma channel_url:
  "text_channel latin1 0.3 (img_reading (str ''www.example.de'')) =
     (str ''www.example.de'',
      Some \<lparr> name = get_best_text_for_title latin1 (str ''www.example.de''),
             description = get_best_text_for_title latin1 (str ''www.example.de''),
             confidence_boost = 0.85 \<rparr>)"
proof (rule text_channel_survivor [where img = "img_reading (str ''www.example.de'')",
      unfolded reading_url])
  show "(0.3::real) \<le> 0.75" by simp
  show "is_meaningful_text latin1 (str ''www.example.de'')" by (rule meaningful_url)
  show "identify_product_from_text latin1 (str ''www.example.de'') =
     Some \<lparr> name = get_best_text_for_title latin1 (str ''www.example.de''),
            description = get_best_text_for_title latin1 (str ''www.example.de''),
            confidence_boost = 0.85 \<rparr>" by (rule identify_url)
  show "\<not> ((0.4::real) < 0.3 \<and>
      confidence_boost \<lparr> name = get_best_text_for_title latin1 (str ''www.example.de''),
            description = get_best_text_for_title latin1 (str ''www.example.de''),
            confidence_boost = 0.85 \<rparr> < 1.2)" by simp
qed

lemma predict_url:
  "predict latin1 labels (request_for (str ''www.example.de'') 0.3) =
     Inr (text_result
            \<lparr> name = get_best_text_for_title latin1 (str ''www.example.de''),
              description = get_best_text_for_title latin1 (str ''www.example.de''),
              confidence_boost = 0.85 \<rparr> 0.8075 (str ''www.example.de'')
          # map (visual_result latin1 labels) (take 4 (ranked5 0.3)))"
  by (simp add: predict_request_for channel_url fused_Some ranked5_def)

theorem text_entry_outranks_visual_witness:
  "predict latin1 labels (request_for (str ''www.example.de'') 0.3) =
     Inr (text_result
            \<lparr> name = get_best_text_for_title latin1 (str ''www.example.de''),
              description = get_best_text_for_title latin1 (str ''www.example.de''),
              confidence_boost = 0.85 \<rparr> 0.8075 (str ''www.example.de'')
          # map (visual_result latin1 labels) (take 4 (ranked5 0.3))) \<and>
   top5 (request_for (str ''www.example.de'') 0.3) = Inr (ranked5 0.3) \<and>
   sorted_wrt (\<ge>) (map snd (ranked5 0.3)) \<and>
   list_all (\<lambda>ip. snd ip \<le> 1) (ranked5 0.3) \<and>
   text_based (text_result
            \<lparr> name = get_best_text_for_title latin1 (str ''www.example.de''),
              description = get_best_text_for_title latin1 (str ''www.example.de''),
              confidence_boost = 0.85 \<rparr> 0.8075 (str ''www.example.de'')) \<and>
   \<not> text_based (visual_result latin1 labels (281, 0.3)) \<and>
   confidence (visual_result latin1 labels (281, 0.3)) <
     confidence (text_result
            \<lparr> name = get_best_text_for_title latin1 (str ''www.example.de''),
              description = get_best_text_for_title latin1 (str ''www.example.de''),
              confidence_boost = 0.85 \<rparr> 0.8075 (str ''www.example.de''))"
proof -
  let ?t = "text_result
            \<lparr> name = get_best_text_for_title latin1 (str ''www.example.de''),
              description = get_best_text_for_title latin1 (str ''www.example.de''),
              confidence_boost = 0.85 \<rparr> 0.8075 (str ''www.example.de'')"
  let ?v = "visual_result latin1 labels (281, 0.3)"
  let ?res = "?t # map (visual_result latin1 labels) (take 4 (ranked5 0.3))"
  have h2: "top5 (request_for (str ''www.example.de'') 0.3) = Inr (ranked5 0.3)"
    by (simp add: request_for_def)
  have h3: "sorted_wrt (\<ge>) (map snd (ranked5 0.3))" by (simp add: ranked5_def)
  have h4: "\<forall>ip\<in>set (ranked5 0.3). snd ip \<le> 1" by (simp add: ranked5_def)
  have h4': "list_all (\<lambda>ip. snd ip \<le> 1) (ranked5 0.3)" by (simp add: ranked5_def)
  have h5: "?t \<in> set ?res" by simp
  have h6: "text_based ?t" by (simp add: text_based_def text_result_def)
  have h7: "?v \<in> set ?res" by (simp add: ranked5_def)
  have h8: "\<not> text_based ?v" by (simp add: text_based_def visual_result_def)
  from text_entry_outranks_visual [OF predict_url h2 h3 h4 h5 h6 h7 h8]
  have "confidence ?v < confidence ?t" by blast
  with predict_url h2 h3 h4' h6 h8 show ?thesis by blast
qed

text \<open>
  C10: in \<open>image_recognition.py\<close>, \<open>predict\<close> emits a text-based entry only if
  \<open>is_meaningful_text\<close> is true of the extracted text; when the filter rejects the text,
  every entry of the list is visual, whether or not the text holds a registry keyword.
\<close>

theorem text_entry_needs_meaningful_text:
  assumes "decoded req = Inr img" and "predict U categories req = Inr res"
  shows "(list_ex text_based res \<longrightarrow> is_meaningful_text U (extract_text img)) \<and>
         (\<not> is_meaningful_text U (extract_text img) \<longrightarrow> visual_only res)"
proof -
  from assms obtain ranked c where
    res: "res = take 5 (fused_results U categories ranked (text_channel U c img))"
    by (auto simp: predict_def split: sum.splits list.splits)
  have a: "visual_only res" if "\<not> is_meaningful_text U (extract_text img)"
  proof -
    from that have "snd (text_channel U c img) = None"
      by (simp add: text_channel_def Let_def)
    then have "res = take 5 (visual_results U categories ranked
        (fst (text_channel U c img)) None)"
      using res by (simp add: fused_results_def)
    moreover have "visual_only (visual_results U categories ranked
        (fst (text_channel U c img)) None)" by (rule visual_results_only)
    ultimately show ?thesis
      by (auto simp: visual_only_def list_all_iff dest: in_set_takeD)
  qed
  have "is_meaningful_text U (extract_text img)" if "list_ex text_based res"
  proof (rule ccontr)
    assume "\<not> is_meaningful_text U (extract_text img)"
    then have "visual_only res" by (rule a)
    with that show False by (auto simp: visual_only_def list_all_iff list_ex_iff)
  qed
  with a show ?thesis by blast
qed

theorem text_entry_needs_meaningful_text_witness:
  "decoded (request_for (str ''Weizenmehl Typ 405'') 0.3) =
     Inr (img_reading (str ''Weizenmehl Typ 405'')) \<and>
   predict latin1 labels (request_for (str ''Weizenmehl Typ 405'') 0.3) =
     Inr (text_result (entry ''Weizenmehl'' ''Weizenmehl'' 1.5) 1.425 (str ''Weizenmehl Typ 405'')
          # map (visual_result latin1 labels) (take 4 (ranked5 0.3))) \<and>
   list_ex text_based
     (text_result (entry ''Weizenmehl'' ''Weizenmehl'' 1.5) 1.425 (str ''Weizenmehl Typ 405'')
          # map (visual_result latin1 labels) (take 4 (ranked5 0.3))) \<and>
   is_meaningful_text latin1 (extract_text (img_reading (str ''Weizenmehl Typ 405''))) \<and>
   decoded (request_for (str ''Milch'') 0.3) = Inr (img_reading (str ''Milch'')) \<and>
   predict latin1 labels (request_for (str ''Milch'') 0.3) =
     Inr ((visual_result latin1 labels (281, 0.3))\<lparr>extracted_text := Some (str ''Milch'')\<rparr>
          # map (visual_result latin1 labels) (tl (ranked5 0.3))) \<and>
   registry_match latin1 PRODUCT_TEXT_MAPPING (extract_text (img_reading (str ''Milch''))) =
     Some (entry ''Milch'' ''Frische Milch'' 1.2) \<and>
   \<not> is_meaningful_text latin1 (extract_text (img_reading (str ''Milch''))) \<and>
   visual_only
     ((visual_result latin1 labels (281, 0.3))\<lparr>extracted_text := Some (str ''Milch'')\<rparr>
          # map (visual_result latin1 labels) (tl (ranked5 0.3)))"
proof -
  have d1: "decoded (request_for (str ''Weizenmehl Typ 405'') 0.3) =
      Inr (img_reading (str ''Weizenmehl Typ 405''))" by (simp add: request_for_def)
  have d2: "decoded (request_for (str ''Milch'') 0.3) = Inr (img_reading (str ''Milch''))"
    by (simp add: request_for_def)
  have e: "list_ex text_based
     (text_result (entry ''Weizenmehl'' ''Weizenmehl'' 1.5) 1.425 (str ''Weizenmehl Typ 405'')
          # map (visual_result latin1 labels) (take 4 (ranked5 0.3)))"
    by (simp add: text_based_def text_result_def)
  have n: "\<not> is_meaningful_text latin1 (extract_text (img_reading (str ''Milch'')))"
    by (simp add: reading_Milch not_meaningful_Milch)
  have m: "registry_match latin1 PRODUCT_TEXT_MAPPING (extract_text (img_reading (str ''Milch''))) =
     Some (entry ''Milch'' ''Frische Milch'' 1.2)"
    by (simp add: reading_Milch match_Milch)
  from text_entry_needs_meaningful_text [OF d1 predict_flour]
    text_entry_needs_meaningful_text [OF d2 predict_Milch [of latin1]]
    d1 d2 e n m predict_flour predict_Milch [of latin1]
  show ?thesis by blast
qed

end
